theory Spec2Isabelle
  imports Complex_Main
begin

section \<open>Numbers, tensors and errors\<close>

text \<open>
  The sources are \<^verbatim>\<open>tlab/optimize.py\<close> (the training-step wrapper \<^verbatim>\<open>Optimizer\<close> and the
  loss \<^verbatim>\<open>cross_entropy\<close>) and \<^verbatim>\<open>tlab/utils/util.py\<close> (the diagnostic \<^verbatim>\<open>fourier_basis\<close>).

  A Python float and an entry of a floating tensor are modelled by a real number: the
  arithmetic is exact, rounding is left out, except where the exact value would change
  what the code does (the sine row of \<open>fourier_basis\<close> that vanishes in exact arithmetic,
  see \<open>sin_row\<close>). What IEEE arithmetic returns where the real operation has no value is
  kept apart in the type \<open>fl\<close>, so that a division by a zero norm or a logarithm of a
  non-positive number is a visible branch and never the arbitrary value HOL gives to
  \<open>x / 0\<close> or \<open>ln 0\<close>.
\<close>

datatype fl = Fin real | NaN | PosInf | NegInf

text \<open>Division of a finite number by a finite number; a zero divisor is \<open>+0\<close>.\<close>

definition fdiv :: "real \<Rightarrow> real \<Rightarrow> fl" where
  "fdiv x d =
     (if d \<noteq> 0 then Fin (x / d)
      else if x = 0 then NaN
      else if 0 < x then PosInf else NegInf)"

text \<open>\<^verbatim>\<open>np.log\<close>: minus infinity at zero and not-a-number below (with a warning, no exception).\<close>

definition np_log :: "real \<Rightarrow> fl" where
  "np_log x = (if 0 < x then Fin (ln x) else if x = 0 then NegInf else NaN)"

fun fin_of :: "fl \<Rightarrow> real option" where
  "fin_of (Fin x) = Some x"
| "fin_of NaN = None"
| "fin_of PosInf = None"
| "fin_of NegInf = None"

datatype error = ValueError | IndexError | RuntimeError | ZeroDivisionError

type_synonym tensor = "real list"

section \<open>\<^verbatim>\<open>util.py\<close>: the Fourier basis\<close>

text \<open>\<^verbatim>\<open>torch.arange(k)\<close>, \<^verbatim>\<open>torch.ones(k)\<close> and \<^verbatim>\<open>Tensor.norm()\<close> (the 2-norm).\<close>

definition arange :: "nat \<Rightarrow> tensor" where
  "arange k = map real [0..<k]"

definition ones :: "nat \<Rightarrow> tensor" where
  "ones k = replicate k 1"

definition norm2 :: "tensor \<Rightarrow> real" where
  "norm2 v = sqrt (\<Sum>x\<leftarrow>v. x\<^sup>2)"

text \<open>A tensor divided by a scalar, entry by entry: \<^verbatim>\<open>v / d\<close> and \<^verbatim>\<open>v /= d\<close>.\<close>

definition div_scalar :: "tensor \<Rightarrow> real \<Rightarrow> fl list" where
  "div_scalar v d = map (\<lambda>x. fdiv x d) v"

text \<open>
  \<^verbatim>\<open>torch.cos(2 * torch.pi * torch.arange(k) * i / k)\<close>, with the operations in the order
  of the source.
\<close>

definition cos_row :: "nat \<Rightarrow> nat \<Rightarrow> tensor" where
  "cos_row k i = map (\<lambda>n. cos (2 * pi * n * real i / real k)) (arange k)"

text \<open>
  \<^verbatim>\<open>torch.sin(2 * torch.pi * torch.arange(k) * i / k)\<close>. For \<open>2 i = k\<close> the exact values are
  \<open>sin (\<pi> n) = 0\<close> for every \<open>n\<close>, and there exact arithmetic is no model of the code:
  float32 evaluates the sine at the rounded products \<open>\<pi> n\<close>, which are no multiples of
  \<open>\<pi>\<close>, and the row it gets is made of rounding residues (\<open>[0, -8.74e-8]\<close> for \<open>k = 2\<close>),
  which the division by the norm then scales to unit length. These residues are a
  parameter of the model: \<open>R k n\<close> is entry \<open>n\<close> of the sine row that the code computes at
  \<open>i = k / 2\<close>. Every other sine row has its exact values.
\<close>

definition sin_row :: "(nat \<Rightarrow> nat \<Rightarrow> real) \<Rightarrow> nat \<Rightarrow> nat \<Rightarrow> tensor" where
  "sin_row R k i =
     (if 2 * i = k then map (R k) [0..<k]
      else map (\<lambda>n. sin (2 * pi * n * real i / real k)) (arange k))"

text \<open>
  The loop body appends the cosine and the sine row and then divides the last two rows
  of the list by their own norms, in place: the two rows it divides are the two it has
  just appended, so the body appends the two quotients.
\<close>

fun fourier_loop ::
  "(nat \<Rightarrow> nat \<Rightarrow> real) \<Rightarrow> nat \<Rightarrow> nat list \<Rightarrow> fl list list \<Rightarrow> fl list list"
where
  "fourier_loop R k [] fb = fb"
| "fourier_loop R k (i # is) fb =
     (let c = cos_row k i; s = sin_row R k i
      in fourier_loop R k is (fb @ [div_scalar c (norm2 c), div_scalar s (norm2 s)]))"

text \<open>
  \<^verbatim>\<open>fourier_basis(k)\<close>: the constant row, then the loop over \<^verbatim>\<open>range(1, k // 2 + 1)\<close>, the
  rows stacked in order. The cache decorator and the move to the GPU do not change the
  value; the list of row names is built and dropped.
\<close>

definition fourier_basis :: "(nat \<Rightarrow> nat \<Rightarrow> real) \<Rightarrow> nat \<Rightarrow> fl list list" where
  "fourier_basis R k =
     fourier_loop R k [1..<k div 2 + 1] [div_scalar (ones k) (sqrt (real k))]"

text \<open>
  The residues that float32 computes for \<open>k = 2\<close>: \<^verbatim>\<open>torch.sin\<close> of \<open>[0, \<pi>]\<close> in float32 is
  \<open>[0, -8.742278e-8]\<close>. Other \<open>k\<close> are not tabulated here.
\<close>

definition float32_sine_row_2 :: "nat \<Rightarrow> nat \<Rightarrow> real" where
  "float32_sine_row_2 k n = (if n = 1 then - 8742278 / 10 ^ 14 else 0)"

text \<open>
  Orthonormality of the rows of a matrix: every entry is a finite number, every row has
  Euclidean norm 1, and two distinct rows have dot product 0.
\<close>

definition reals_of :: "fl list \<Rightarrow> tensor option" where
  "reals_of r = those (map fin_of r)"

definition dot :: "tensor \<Rightarrow> tensor \<Rightarrow> real" where
  "dot u v = (\<Sum>(x, y)\<leftarrow>zip u v. x * y)"

definition orthonormal_rows :: "fl list list \<Rightarrow> bool" where
  "orthonormal_rows M =
     (case those (map reals_of M) of
        None \<Rightarrow> False
      | Some R \<Rightarrow>
          (\<forall>i<length R. norm2 (R ! i) = 1) \<and>
          (\<forall>i<length R. \<forall>j<length R. i \<noteq> j \<longrightarrow> dot (R ! i) (R ! j) = 0))"

text \<open>Names used in the proofs: the pair of rows of one loop round, the angle
  \<open>2\<pi>m/k\<close>, and the entries of the basis for odd \<open>k\<close> in closed form.\<close>

definition normalized_pair :: "(nat \<Rightarrow> nat \<Rightarrow> real) \<Rightarrow> nat \<Rightarrow> nat \<Rightarrow> fl list list" where
  "normalized_pair R k i =
     [div_scalar (cos_row k i) (norm2 (cos_row k i)),
      div_scalar (sin_row R k i) (norm2 (sin_row R k i))]"

definition harmonic :: "nat \<Rightarrow> int \<Rightarrow> real" where
  "harmonic k m = 2 * pi * real_of_int m / real k"

definition basis_entry :: "nat \<Rightarrow> nat \<Rightarrow> nat \<Rightarrow> real" where
  "basis_entry k a n =
     (if a = 0 then 1 / sqrt (real k)
      else if odd a then cos (real n * harmonic k (int ((a + 1) div 2))) / sqrt (real k / 2)
      else sin (real n * harmonic k (int (a div 2))) / sqrt (real k / 2))"

text \<open>Row \<open>a > 0\<close> of the basis has frequency \<open>freq a\<close>: rows \<open>2i - 1\<close> and \<open>2i\<close> have
  frequency \<open>i\<close>.\<close>

definition freq :: "nat \<Rightarrow> nat" where
  "freq a = (if odd a then (a + 1) div 2 else a div 2)"

definition basis_row :: "nat \<Rightarrow> nat \<Rightarrow> tensor" where
  "basis_row k a = map (basis_entry k a) [0..<k]"

section \<open>\<^verbatim>\<open>optimize.py\<close>: the cross-entropy loss\<close>



record ('a, 'd) tensor2 =
  rows :: nat
  cols :: nat
  cell :: "nat \<Rightarrow> nat \<Rightarrow> 'a"
  held :: 'd







section \<open>\<^verbatim>\<open>optimize.py\<close>: the Optimizer\<close>

record optim_config =
  learning_rate :: real
  weight_decay :: real
  n_epochs :: int
  fixed_wnorm :: bool

definition default_config :: optim_config where
  "default_config =
     \<lparr>learning_rate = 1 / 1000, weight_decay = 1, n_epochs = 10000, fixed_wnorm = False\<rparr>"

text \<open>
  Modelled from the spec: the class \<^verbatim>\<open>Transformer\<close> (\<^verbatim>\<open>tlab.models.transformer\<close>) is not
  among the sources; the specification calls it an external collaborator. The model
  keeps what \<^verbatim>\<open>Optimizer\<close> reads and writes of it: the parameter tensors
  (\<^verbatim>\<open>model.parameters()\<close>) and the gradients accumulated on them (\<open>None\<close> when
  cleared). Its property \<^verbatim>\<open>wnorm\<close>, by the glossary an aggregate scalar measuring the
  magnitude of the parameter vector, is a function of the parameters and a parameter of
  the model (field \<open>wnorm\<close> of \<open>externals\<close> below).
\<close>

record transformer =
  parameters :: "tensor list"
  grad :: "tensor list option"

text \<open>
  Modelled from the spec: the type \<^verbatim>\<open>Dataset\<close> (\<^verbatim>\<open>tlab.data\<close>) is not among the sources.
  \<^verbatim>\<open>measure_loss\<close> reads \<^verbatim>\<open>data["Train"]["In"]\<close>, \<^verbatim>\<open>data["Train"]["Label"]\<close>,
  \<^verbatim>\<open>data["Test"]["In"]\<close> and \<^verbatim>\<open>data["Test"]["Label"]\<close>: a value of the type has these four
  entries.
\<close>

record ('x, 'y) dataset =
  train_in :: 'x
  train_label :: 'y
  test_in :: 'x
  test_label :: 'y

text \<open>
  \<^verbatim>\<open>torch.optim.AdamW\<close> with its one parameter group: the learning rate that the scheduler
  rewrites, the hyperparameters, and the moment estimates and step counts, whose type
  \<open>'s\<close> is left open.
\<close>

record 's adamw =
  lr :: real
  adam_weight_decay :: real
  betas :: "real \<times> real"
  state :: 's

text \<open>\<^verbatim>\<open>torch.optim.lr_scheduler.LambdaLR\<close> over one parameter group.\<close>

record lambda_lr =
  base_lr :: real
  last_epoch :: int
  last_lr :: real

text \<open>
  What the module calls and does not define: the gradient of a scalar function of the
  parameters at a point (autograd), the update rule of AdamW (from the optimizer with its
  learning rate, the parameters and their gradients to the new moments and the new
  parameters) with its initial moments, and \<^verbatim>\<open>Transformer.wnorm\<close>.
\<close>

record 's externals =
  autograd :: "(tensor list \<Rightarrow> real) \<Rightarrow> tensor list \<Rightarrow> tensor list"
  adamw_rule :: "'s adamw \<Rightarrow> tensor list \<Rightarrow> tensor list \<Rightarrow> 's \<times> tensor list"
  adamw_state0 :: 's
  wnorm :: "tensor list \<Rightarrow> real"

text \<open>Formatting of floats in f-strings: \<^verbatim>\<open>f"{x}"\<close> and \<^verbatim>\<open>f"{x:.nf}"\<close>.\<close>

record formatting =
  str_float :: "real \<Rightarrow> string"
  format_fixed :: "nat \<Rightarrow> fl \<Rightarrow> string"

record ('s, 'x, 'y) Optimizer =
  config :: optim_config
  loss_func :: "transformer \<Rightarrow> 'x \<Rightarrow> 'y \<Rightarrow> string \<Rightarrow> real"
  device :: string
  optimizer :: "'s adamw"
  scheduler :: lambda_lr
  epoch :: int
  start_norm :: real
  train_losses :: "real list"
  test_losses :: "real list"

text \<open>
  The constructor of AdamW refuses a negative learning rate, a beta outside \<open>[0, 1)\<close>, a
  negative weight decay and an empty parameter list, each with ValueError.
\<close>

definition new_adamw ::
  "'s externals \<Rightarrow> tensor list \<Rightarrow> real \<Rightarrow> real \<Rightarrow> real \<times> real \<Rightarrow> error + 's adamw"
where
  "new_adamw X params rate decay bs =
     (if rate < 0 then Inl ValueError
      else if \<not> (0 \<le> fst bs \<and> fst bs < 1) then Inl ValueError
      else if \<not> (0 \<le> snd bs \<and> snd bs < 1) then Inl ValueError
      else if decay < 0 then Inl ValueError
      else if params = [] then Inl ValueError
      else Inr \<lparr>lr = rate, adam_weight_decay = decay, betas = bs, state = adamw_state0 X\<rparr>)"

text \<open>The schedule of the source: \<^verbatim>\<open>lambda step: min(step / 10, 1)\<close>.\<close>

definition lr_lambda :: "int \<Rightarrow> real" where
  "lr_lambda step = min (real_of_int step / 10) 1"

text \<open>
  \<^verbatim>\<open>scheduler.step()\<close>: the epoch counter goes up by one and the learning rate of the
  optimizer becomes the base rate times the schedule at the new counter. The scheduler
  holds a reference to the optimizer, so the step returns both.
\<close>

definition scheduler_step :: "lambda_lr \<times> 's adamw \<Rightarrow> lambda_lr \<times> 's adamw" where
  "scheduler_step = (\<lambda>(sch, opt).
     (let e = last_epoch sch + 1; v = base_lr sch * lr_lambda e
      in (sch\<lparr>last_epoch := e, last_lr := v\<rparr>, opt\<lparr>lr := v\<rparr>)))"

text \<open>
  The constructor of LambdaLR records the optimizer's rate as base rate, starts the
  counter at \<open>-1\<close> and takes one step at once.
\<close>

definition new_lambda_lr :: "'s adamw \<Rightarrow> lambda_lr \<times> 's adamw" where
  "new_lambda_lr opt = scheduler_step (\<lparr>base_lr = lr opt, last_epoch = - 1, last_lr = lr opt\<rparr>, opt)"

text \<open>\<^verbatim>\<open>Optimizer.__init__\<close>.\<close>

definition init ::
  "'s externals \<Rightarrow> optim_config \<Rightarrow> transformer \<Rightarrow> (transformer \<Rightarrow> 'x \<Rightarrow> 'y \<Rightarrow> string \<Rightarrow> real)
     \<Rightarrow> string \<Rightarrow> error + ('s, 'x, 'y) Optimizer"
where
  "init X cfg model lf dev =
     (case new_adamw X (parameters model) (learning_rate cfg) (weight_decay cfg) (9 / 10, 98 / 100) of
        Inl e \<Rightarrow> Inl e
      | Inr opt \<Rightarrow>
          (let (sch, opt') = new_lambda_lr opt
           in Inr \<lparr>config = cfg, loss_func = lf, device = dev,
                   optimizer = opt', scheduler = sch,
                   epoch = 0, start_norm = wnorm X (parameters model),
                   train_losses = [], test_losses = []\<rparr>))"

text \<open>\<^verbatim>\<open>device or self.device\<close>: the argument unless it is \<^verbatim>\<open>None\<close> or the empty string.\<close>

definition device_or :: "string option \<Rightarrow> string \<Rightarrow> string" where
  "device_or d own = (case d of None \<Rightarrow> own | Some s \<Rightarrow> if s = [] then own else s)"

text \<open>
  \<^verbatim>\<open>Optimizer.measure_loss\<close>: the two losses of the given model, appended to the two
  histories (\<^verbatim>\<open>.item()\<close> reads the scalar), and returned.
\<close>

definition measure_loss ::
  "('s, 'x, 'y) Optimizer \<Rightarrow> transformer \<Rightarrow> ('x, 'y) dataset \<Rightarrow> string option
     \<Rightarrow> (real \<times> real) \<times> ('s, 'x, 'y) Optimizer"
where
  "measure_loss self model data dev =
     (let d = device_or dev (device self);
          train_loss = loss_func self model (train_in data) (train_label data) d;
          test_loss = loss_func self model (test_in data) (test_label data) d
      in ((train_loss, test_loss),
          self\<lparr>train_losses := train_losses self @ [train_loss],
               test_losses := test_losses self @ [test_loss]\<rparr>))"

text \<open>
  A loss tensor carries its dependence on the parameters; \<^verbatim>\<open>train_loss.backward()\<close> adds
  the gradient of that dependence, at the current parameters, to the stored gradients.
\<close>

definition train_graph ::
  "('s, 'x, 'y) Optimizer \<Rightarrow> transformer \<Rightarrow> ('x, 'y) dataset \<Rightarrow> string option \<Rightarrow> tensor list \<Rightarrow> real"
where
  "train_graph self model data dev =
     (\<lambda>ps. loss_func self (model\<lparr>parameters := ps\<rparr>) (train_in data) (train_label data)
              (device_or dev (device self)))"

definition backward :: "'s externals \<Rightarrow> (tensor list \<Rightarrow> real) \<Rightarrow> transformer \<Rightarrow> transformer" where
  "backward X f model =
     (let g = autograd X f (parameters model)
      in model\<lparr>grad := Some (case grad model of
                                None \<Rightarrow> g
                              | Some g0 \<Rightarrow> map2 (map2 (+)) g0 g)\<rparr>)"

text \<open>\<^verbatim>\<open>optimizer.step()\<close>: parameters without a gradient are left alone.\<close>

definition optimizer_step :: "'s externals \<Rightarrow> 's adamw \<Rightarrow> transformer \<Rightarrow> 's adamw \<times> transformer" where
  "optimizer_step X opt model =
     (case grad model of
        None \<Rightarrow> (opt, model)
      | Some g \<Rightarrow>
          (let (s, ps) = adamw_rule X opt (parameters model) g
           in (opt\<lparr>state := s\<rparr>, model\<lparr>parameters := ps\<rparr>)))"

definition zero_grad :: "transformer \<Rightarrow> transformer" where
  "zero_grad model = model\<lparr>grad := None\<rparr>"

text \<open>\<^verbatim>\<open>param *= coeff\<close> for every parameter tensor.\<close>

definition scale :: "real \<Rightarrow> tensor list \<Rightarrow> tensor list" where
  "scale coeff ps = map (map (\<lambda>x. x * coeff)) ps"

text \<open>
  The first five statements of \<^verbatim>\<open>Optimizer.step\<close>, up to \<^verbatim>\<open>zero_grad\<close>: the optimizer is
  taken to have been built on the parameters of the model now passed, as the training
  loop does.
\<close>

definition gradient_update ::
  "'s externals \<Rightarrow> ('s, 'x, 'y) Optimizer \<Rightarrow> transformer \<Rightarrow> ('x, 'y) dataset \<Rightarrow> string option
     \<Rightarrow> ('s, 'x, 'y) Optimizer \<times> transformer"
where
  "gradient_update X self model data dev =
     (let ((train_loss, _), self1) = measure_loss self model data dev;
          model1 = backward X (train_graph self model data dev) model;
          (opt2, model2) = optimizer_step X (optimizer self1) model1;
          (sch3, opt3) = scheduler_step (scheduler self1, opt2);
          model3 = zero_grad model2
      in (self1\<lparr>optimizer := opt3, scheduler := sch3\<rparr>, model3))"

text \<open>
  \<^verbatim>\<open>Optimizer.step\<close>. The value of \<^verbatim>\<open>model.wnorm\<close>, a scalar by the glossary, is taken to be
  a Python float, so the quotient \<^verbatim>\<open>self.start_norm / model.wnorm\<close> is a division of
  Python floats: at a zero divisor it raises ZeroDivisionError, after the update and
  before the epoch counter moves. The result is the exception, if any, and the state of
  the optimizer and of the model when the call ends.
\<close>

definition step ::
  "'s externals \<Rightarrow> ('s, 'x, 'y) Optimizer \<Rightarrow> transformer \<Rightarrow> ('x, 'y) dataset \<Rightarrow> string option
     \<Rightarrow> error option \<times> ('s, 'x, 'y) Optimizer \<times> transformer"
where
  "step X self model data dev =
     (let (self3, model3) = gradient_update X self model data dev
      in if fixed_wnorm (config self3) then
           (if wnorm X (parameters model3) = 0 then (Some ZeroDivisionError, self3, model3)
            else
              (let coeff = start_norm self3 / wnorm X (parameters model3)
               in (None, self3\<lparr>epoch := epoch self3 + 1\<rparr>,
                   model3\<lparr>parameters := scale coeff (parameters model3)\<rparr>)))
         else (None, self3\<lparr>epoch := epoch self3 + 1\<rparr>, model3))"

text \<open>\<^verbatim>\<open>gpu_mem()\<close>, from the bytes that \<^verbatim>\<open>torch.cuda.memory_allocated()\<close> reports.\<close>

definition gpu_mem :: "nat \<Rightarrow> real" where
  "gpu_mem allocated = real allocated / 1000000000"

text \<open>
  Python's \<^verbatim>\<open>xs[-1]\<close>: the last element, IndexError on the empty list.
\<close>

definition last_item :: "'a list \<Rightarrow> error + 'a" where
  "last_item xs = (case xs of [] \<Rightarrow> Inl IndexError | _ # _ \<Rightarrow> Inr (last xs))"

text \<open>
  \<^verbatim>\<open>Optimizer.display\<close>: the keyword arguments of \<^verbatim>\<open>dict\<close> are evaluated in order, and the
  dictionary keeps that order.
\<close>

definition display ::
  "formatting \<Rightarrow> nat \<Rightarrow> ('s, 'x, 'y) Optimizer \<Rightarrow> error + (string \<times> string) list"
where
  "display F allocated self =
     (let lr_text = str_float F (last_lr (scheduler self))
      in case last_item (train_losses self) of
           Inl e \<Rightarrow> Inl e
         | Inr tr \<Rightarrow>
             (case last_item (test_losses self) of
                Inl e \<Rightarrow> Inl e
              | Inr te \<Rightarrow>
                  Inr [(''lr'', lr_text),
                       (''train'', format_fixed F 4 (np_log tr)),
                       (''test'', format_fixed F 4 (np_log te)),
                       (''gpu'', format_fixed F 3 (Fin (gpu_mem allocated)))]))"

text \<open>
  The operations of an Optimizer after its construction, and a run of them. A call of
  \<^verbatim>\<open>step\<close> calls \<^verbatim>\<open>measure_loss\<close> once; \<^verbatim>\<open>display\<close> reads and changes nothing.
\<close>

datatype ('x, 'y) operation =
  Measure_loss "('x, 'y) dataset" "string option"
| Step "('x, 'y) dataset" "string option"
| Display nat

fun apply_operation ::
  "'s externals \<Rightarrow> ('x, 'y) operation \<Rightarrow> ('s, 'x, 'y) Optimizer \<times> transformer
     \<Rightarrow> ('s, 'x, 'y) Optimizer \<times> transformer"
where
  "apply_operation X (Measure_loss data dev) (self, model) =
     (snd (measure_loss self model data dev), model)"
| "apply_operation X (Step data dev) (self, model) = snd (step X self model data dev)"
| "apply_operation X (Display allocated) (self, model) = (self, model)"

definition run ::
  "'s externals \<Rightarrow> ('x, 'y) operation list \<Rightarrow> ('s, 'x, 'y) Optimizer \<times> transformer
     \<Rightarrow> ('s, 'x, 'y) Optimizer \<times> transformer"
where
  "run X ops st = fold (apply_operation X) ops st"



text \<open>
  The operations that advance the scheduler (\<^verbatim>\<open>step\<close> alone), their number in a run, and
  the state of the schedule after \<open>n\<close> scheduler steps: the optimizer's learning rate
  is the base rate times the schedule at \<open>n\<close>, and it is the rate the scheduler reports.
\<close>

fun advances_scheduler :: "('x, 'y) operation \<Rightarrow> bool" where
  "advances_scheduler (Measure_loss data dev) = False"
| "advances_scheduler (Step data dev) = True"
| "advances_scheduler (Display allocated) = False"

definition scheduler_steps :: "('x, 'y) operation list \<Rightarrow> nat" where
  "scheduler_steps ops = length (filter advances_scheduler ops)"

definition schedule_at :: "real \<Rightarrow> nat \<Rightarrow> lambda_lr \<times> 's adamw \<Rightarrow> bool" where
  "schedule_at b n = (\<lambda>(sch, opt).
     base_lr sch = b \<and> last_epoch sch = int n \<and> lr opt = b * lr_lambda (int n) \<and> last_lr sch = lr opt)"

text \<open>Concrete collaborators for the examples: plain gradient descent on the loss
  \<open>\<Sum>x\<^sup>2 / 2\<close>, whose gradient is the parameter vector, and the sum of absolute values as
  \<open>wnorm\<close>.\<close>

definition abs_sum :: "tensor list \<Rightarrow> real" where
  "abs_sum ps = (\<Sum>p\<leftarrow>ps. \<Sum>x\<leftarrow>p. \<bar>x\<bar>)"

definition descent :: "unit externals" where
  "descent =
     \<lparr>autograd = (\<lambda>f ps. ps),
      adamw_rule = (\<lambda>opt ps g. ((), map2 (map2 (\<lambda>p d. p - lr opt * d)) ps g)),
      adamw_state0 = (),
      wnorm = abs_sum\<rparr>"

definition half_squares :: "transformer \<Rightarrow> unit \<Rightarrow> unit \<Rightarrow> string \<Rightarrow> real" where
  "half_squares model x y d = (\<Sum>p\<leftarrow>parameters model. \<Sum>v\<leftarrow>p. v\<^sup>2) / 2"

text \<open>
  Positive homogeneity of degree 1 of a function of the parameter tensors: scaling every
  entry by \<open>c > 0\<close> scales the value by \<open>c\<close>.
\<close>

definition positively_homogeneous :: "(tensor list \<Rightarrow> real) \<Rightarrow> bool" where
  "positively_homogeneous w = (\<forall>c ps. 0 < c \<longrightarrow> w (map (map (\<lambda>x. c * x)) ps) = c * w ps)"

text \<open>
  A function of the parameters that is positively homogeneous of degree 1 and takes
  negative values: the sum of the entries, doubled where it is negative; and the
  collaborators of the examples with it as \<open>wnorm\<close>.
\<close>

definition skew_sum :: "tensor list \<Rightarrow> real" where
  "skew_sum ps = (let s = (\<Sum>p\<leftarrow>ps. \<Sum>x\<leftarrow>p. x) in if 0 \<le> s then s else 2 * s)"

definition skewed :: "unit externals" where
  "skewed = descent\<lparr>wnorm := skew_sum\<rparr>"




text \<open>
  A formatter that is exact on what the examples print: zero, and the non-finite values;
  it answers \<open>?\<close> elsewhere.
\<close>

definition zero_format :: formatting where
  "zero_format =
     \<lparr>str_float = (\<lambda>x. if x = 0 then ''0.0'' else ''?''),
      format_fixed = (\<lambda>n v. case v of
          Fin x \<Rightarrow> (if x = 0 then ''0.'' @ replicate n (CHR ''0'') else ''?'')
        | NaN \<Rightarrow> ''nan'' | PosInf \<Rightarrow> ''inf'' | NegInf \<Rightarrow> ''-inf'')\<rparr>"

text \<open>
  An optimizer with fixed weight norm and base rate 5 on a model with the one parameter
  tensor \<open>[3, -1]\<close>: as built by the constructor, and after its first step.
\<close>

definition example_config :: optim_config where
  "example_config = default_config\<lparr>learning_rate := 5, fixed_wnorm := True\<rparr>"

definition example_model :: transformer where
  "example_model = \<lparr>parameters = [[3, - 1]], grad = None\<rparr>"

definition example_data :: "(unit, unit) dataset" where
  "example_data = \<lparr>train_in = (), train_label = (), test_in = (), test_label = ()\<rparr>"

definition example_optimizer :: "(unit, unit, unit) Optimizer" where
  "example_optimizer =
     \<lparr>config = example_config, loss_func = half_squares, device = ''cuda'',
      optimizer = \<lparr>lr = 0, adam_weight_decay = 1, betas = (9 / 10, 98 / 100), state = ()\<rparr>,
      scheduler = \<lparr>base_lr = 5, last_epoch = 0, last_lr = 0\<rparr>,
      epoch = 0, start_norm = 4, train_losses = [], test_losses = []\<rparr>"

definition example_after_step :: "(unit, unit, unit) Optimizer" where
  "example_after_step =
     example_optimizer
        \<lparr>optimizer := \<lparr>lr = 1 / 2, adam_weight_decay = 1, betas = (9 / 10, 98 / 100), state = ()\<rparr>,
         scheduler := \<lparr>base_lr = 5, last_epoch = 1, last_lr = 1 / 2\<rparr>,
         epoch := 1, train_losses := [5], test_losses := [5]\<rparr>"

text \<open>
  The same with base rate 30 and the parameter tensor \<open>[3, 1]\<close>, for the collaborators
  \<open>skewed\<close>: as built by the constructor, and after its first step.
\<close>

definition skew_config :: optim_config where
  "skew_config = default_config\<lparr>learning_rate := 30, fixed_wnorm := True\<rparr>"

definition skew_model :: transformer where
  "skew_model = \<lparr>parameters = [[3, 1]], grad = None\<rparr>"

definition skew_optimizer :: "(unit, unit, unit) Optimizer" where
  "skew_optimizer =
     \<lparr>config = skew_config, loss_func = half_squares, device = ''cuda'',
      optimizer = \<lparr>lr = 0, adam_weight_decay = 1, betas = (9 / 10, 98 / 100), state = ()\<rparr>,
      scheduler = \<lparr>base_lr = 30, last_epoch = 0, last_lr = 0\<rparr>,
      epoch = 0, start_norm = 4, train_losses = [], test_losses = []\<rparr>"

definition skew_after_step :: "(unit, unit, unit) Optimizer" where
  "skew_after_step =
     skew_optimizer
        \<lparr>optimizer := \<lparr>lr = 3, adam_weight_decay = 1, betas = (9 / 10, 98 / 100), state = ()\<rparr>,
         scheduler := \<lparr>base_lr = 30, last_epoch = 1, last_lr = 3\<rparr>,
         epoch := 1, train_losses := [5], test_losses := [5]\<rparr>"



section \<open>The Fourier basis: the rows of the loop\<close>

lemma fourier_loop_eq:
  "fourier_loop R k is fb = fb @ concat (map (normalized_pair R k) is)"
  by (induction "is" arbitrary: fb) (simp_all add: Let_def normalized_pair_def)

lemma nth_concat_pairs:
  "j < length xs \<Longrightarrow>
     concat (map (\<lambda>i. [f i, g i]) xs) ! (2 * j) = f (xs ! j) \<and>
     concat (map (\<lambda>i. [f i, g i]) xs) ! Suc (2 * j) = g (xs ! j)"
proof (induction xs arbitrary: j)
  case Nil
  then show ?case by simp
next
  case (Cons x xs)
  show ?case
  proof (cases j)
    case 0
    then show ?thesis by simp
  next
    case (Suc j')
    with Cons.prems have "j' < length xs" by simp
    from Cons.IH [OF this] Suc show ?thesis by simp
  qed
qed

lemma length_concat_pairs: "length (concat (map (\<lambda>i. [f i, g i]) xs)) = 2 * length xs"
  by (induction xs) simp_all

lemma fourier_basis_eq:
  "fourier_basis R k =
     div_scalar (ones k) (sqrt (real k)) # concat (map (normalized_pair R k) [1..<k div 2 + 1])"
  by (simp add: fourier_basis_def fourier_loop_eq)

lemma length_fourier_basis: "length (fourier_basis R k) = 1 + 2 * (k div 2)"
  unfolding fourier_basis_eq normalized_pair_def by (simp add: length_concat_pairs)

lemma nth_normalized_pairs:
  assumes "j < length xs"
  shows "concat (map (normalized_pair R k) xs) ! (2 * j) =
           div_scalar (cos_row k (xs ! j)) (norm2 (cos_row k (xs ! j)))"
    and "concat (map (normalized_pair R k) xs) ! Suc (2 * j) =
           div_scalar (sin_row R k (xs ! j)) (norm2 (sin_row R k (xs ! j)))"
proof -
  have eq: "normalized_pair R k =
    (\<lambda>i. [div_scalar (cos_row k i) (norm2 (cos_row k i)),
          div_scalar (sin_row R k i) (norm2 (sin_row R k i))])"
    by (rule ext) (simp add: normalized_pair_def)
  show "concat (map (normalized_pair R k) xs) ! (2 * j) =
           div_scalar (cos_row k (xs ! j)) (norm2 (cos_row k (xs ! j)))"
    unfolding eq by (rule conjunct1 [OF nth_concat_pairs [OF assms]])
  show "concat (map (normalized_pair R k) xs) ! Suc (2 * j) =
           div_scalar (sin_row R k (xs ! j)) (norm2 (sin_row R k (xs ! j)))"
    unfolding eq by (rule conjunct2 [OF nth_concat_pairs [OF assms]])
qed

lemma nth_upt_from_1: "j < h \<Longrightarrow> [1..<h + 1] ! j = Suc j"
  by (subst nth_upt) simp_all

lemma fourier_basis_cos:
  assumes "1 \<le> i" "i \<le> k div 2"
  shows "fourier_basis R k ! (2 * i - 1) = div_scalar (cos_row k i) (norm2 (cos_row k i))"
proof -
  obtain j where j: "i = Suc j" using assms(1) by (cases i) auto
  have jh: "j < k div 2" using assms(2) j by simp
  then have jl: "j < length [1..<k div 2 + 1]" by simp
  have idx: "2 * i - 1 = Suc (2 * j)" using j by simp
  have "fourier_basis R k ! (2 * i - 1) = concat (map (normalized_pair R k) [1..<k div 2 + 1]) ! (2 * j)"
    by (simp only: fourier_basis_eq idx nth_Cons_Suc)
  also have "\<dots> = div_scalar (cos_row k ([1..<k div 2 + 1] ! j)) (norm2 (cos_row k ([1..<k div 2 + 1] ! j)))"
    by (rule nth_normalized_pairs(1) [OF jl])
  also have "[1..<k div 2 + 1] ! j = i" unfolding j by (rule nth_upt_from_1 [OF jh])
  finally show ?thesis .
qed

lemma fourier_basis_sin:
  assumes "1 \<le> i" "i \<le> k div 2"
  shows "fourier_basis R k ! (2 * i) = div_scalar (sin_row R k i) (norm2 (sin_row R k i))"
proof -
  obtain j where j: "i = Suc j" using assms(1) by (cases i) auto
  have jh: "j < k div 2" using assms(2) j by simp
  then have jl: "j < length [1..<k div 2 + 1]" by simp
  have idx: "2 * i = Suc (Suc (2 * j))" using j by simp
  have "fourier_basis R k ! (2 * i) = concat (map (normalized_pair R k) [1..<k div 2 + 1]) ! Suc (2 * j)"
    by (simp only: fourier_basis_eq idx nth_Cons_Suc)
  also have "\<dots> = div_scalar (sin_row R k ([1..<k div 2 + 1] ! j)) (norm2 (sin_row R k ([1..<k div 2 + 1] ! j)))"
    by (rule nth_normalized_pairs(2) [OF jl])
  also have "[1..<k div 2 + 1] ! j = i" unfolding j by (rule nth_upt_from_1 [OF jh])
  finally show ?thesis .
qed

lemma length_sin_row: "length (sin_row R k i) = k"
  by (simp add: sin_row_def arange_def)

lemma length_rows: "r \<in> set (fourier_basis R k) \<Longrightarrow> length r = k"
  unfolding fourier_basis_eq normalized_pair_def
  by (auto simp: div_scalar_def ones_def cos_row_def length_sin_row arange_def)

lemma norm2_map: "norm2 (map f [0..<k]) = sqrt (\<Sum>m<k. (f m)\<^sup>2)"
  by (simp add: norm2_def sum_list_sum_nth atLeast0LessThan)

lemma const_row: "0 < k \<Longrightarrow> div_scalar (ones k) (sqrt (real k)) = replicate k (Fin (1 / sqrt (real k)))"
  by (simp add: div_scalar_def ones_def fdiv_def)

lemma those_map_Some: "those (map Some xs) = Some xs"
  by (induction xs) simp_all

lemma reals_of_Fin: "reals_of (map Fin v) = Some v"
  unfolding reals_of_def by (induction v) simp_all

section \<open>Sums of sines and cosines over the roots of unity\<close>

lemma sum_cis_root:
  assumes "cis t \<noteq> 1" "cis (real k * t) = 1"
  shows "(\<Sum>n<k. cis (real n * t)) = 0"
proof -
  have "(\<Sum>n<k. cis (real n * t)) = (\<Sum>n<k. cis t ^ n)" by (simp add: DeMoivre)
  also have "\<dots> = (cis t ^ k - 1) / (cis t - 1)" using assms(1) by (simp add: geometric_sum)
  also have "\<dots> = 0" using assms(2) by (simp add: DeMoivre)
  finally show ?thesis .
qed

lemma cis_harmonic_neq_1:
  assumes "0 < k" "\<not> int k dvd m"
  shows "cis (harmonic k m) \<noteq> 1"
proof
  assume "cis (harmonic k m) = 1"
  then have "cos (harmonic k m) = 1" by (simp add: complex_eq_iff)
  then obtain x :: int where x: "harmonic k m = real_of_int x * 2 * pi"
    unfolding cos_one_2pi_int by blast
  have "real_of_int m = real_of_int x * real k"
    using x assms(1) by (simp add: harmonic_def field_simps)
  then have "real_of_int m = real_of_int (x * int k)" by simp
  then have "m = x * int k" by (simp only: of_int_eq_iff)
  then show False using assms(2) by simp
qed

lemma cis_k_harmonic: "0 < k \<Longrightarrow> cis (real k * harmonic k m) = 1"
proof -
  assume "0 < k"
  then have "real k * harmonic k m = 2 * pi * real_of_int m" by (simp add: harmonic_def)
  then show ?thesis by simp
qed

lemma harmonic_sums:
  assumes "0 < k" "\<not> int k dvd m"
  shows "(\<Sum>n<k. cos (real n * harmonic k m)) = 0"
    and "(\<Sum>n<k. sin (real n * harmonic k m)) = 0"
proof -
  have z: "(\<Sum>n<k. cis (real n * harmonic k m)) = 0"
    by (rule sum_cis_root [OF cis_harmonic_neq_1 [OF assms] cis_k_harmonic [OF assms(1)]])
  from arg_cong [OF z, of Re] show "(\<Sum>n<k. cos (real n * harmonic k m)) = 0" by simp
  from arg_cong [OF z, of Im] show "(\<Sum>n<k. sin (real n * harmonic k m)) = 0" by simp
qed

lemma harmonic_diff: "harmonic k a - harmonic k b = harmonic k (a - b)"
  by (simp add: harmonic_def diff_divide_distrib right_diff_distrib)

lemma harmonic_add: "harmonic k a + harmonic k b = harmonic k (a + b)"
  by (simp add: harmonic_def add_divide_distrib distrib_left)

lemma not_dvd_small: "0 < m \<Longrightarrow> m < int k \<Longrightarrow> \<not> int k dvd m"
  by (simp add: zdvd_not_zless)

lemma not_dvd_diff: 
  assumes "i \<noteq> j" "i < k" "j < k"
  shows "\<not> int k dvd (int i - int j)"
proof
  assume "int k dvd (int i - int j)"
  then have "int k dvd \<bar>int i - int j\<bar>" by simp
  moreover have "0 < \<bar>int i - int j\<bar>" "\<bar>int i - int j\<bar> < int k" using assms by auto
  ultimately show False using zdvd_not_zless by blast
qed

lemma sum_cos_cos:
  assumes "0 < i" "0 < j" "i + j < k"
  shows "(\<Sum>n<k. cos (real n * harmonic k (int i)) * cos (real n * harmonic k (int j))) =
         (if i = j then real k / 2 else 0)"
proof -
  have k: "0 < k" using assms by simp
  have plus: "(\<Sum>n<k. cos (real n * harmonic k (int i + int j))) = 0"
    using assms by (intro harmonic_sums(1) [OF k] not_dvd_small) auto
  have "(\<Sum>n<k. cos (real n * harmonic k (int i)) * cos (real n * harmonic k (int j))) =
        (\<Sum>n<k. (cos (real n * harmonic k (int i - int j)) + cos (real n * harmonic k (int i + int j))) / 2)"
    by (simp add: cos_times_cos flip: harmonic_diff harmonic_add right_diff_distrib distrib_left)
  also have "\<dots> = ((\<Sum>n<k. cos (real n * harmonic k (int i - int j))) + (\<Sum>n<k. cos (real n * harmonic k (int i + int j)))) / 2"
    by (simp only: sum.distrib flip: sum_divide_distrib)
  also have "\<dots> = (\<Sum>n<k. cos (real n * harmonic k (int i - int j))) / 2"
    using plus by simp
  also have "\<dots> = (if i = j then real k / 2 else 0)"
  proof (cases "i = j")
    case True
    then show ?thesis by (simp add: harmonic_def)
  next
    case False
    have "(\<Sum>n<k. cos (real n * harmonic k (int i - int j))) = 0"
      using assms False by (intro harmonic_sums(1) [OF k] not_dvd_diff) auto
    with False show ?thesis by simp
  qed
  finally show ?thesis .
qed

lemma sum_sin_sin:
  assumes "0 < i" "0 < j" "i + j < k"
  shows "(\<Sum>n<k. sin (real n * harmonic k (int i)) * sin (real n * harmonic k (int j))) =
         (if i = j then real k / 2 else 0)"
proof -
  have k: "0 < k" using assms by simp
  have plus: "(\<Sum>n<k. cos (real n * harmonic k (int i + int j))) = 0"
    using assms by (intro harmonic_sums(1) [OF k] not_dvd_small) auto
  have "(\<Sum>n<k. sin (real n * harmonic k (int i)) * sin (real n * harmonic k (int j))) =
        (\<Sum>n<k. (cos (real n * harmonic k (int i - int j)) - cos (real n * harmonic k (int i + int j))) / 2)"
    by (simp add: sin_times_sin flip: harmonic_diff harmonic_add right_diff_distrib distrib_left)
  also have "\<dots> = ((\<Sum>n<k. cos (real n * harmonic k (int i - int j))) - (\<Sum>n<k. cos (real n * harmonic k (int i + int j)))) / 2"
    by (simp only: sum_subtractf flip: sum_divide_distrib)
  also have "\<dots> = (\<Sum>n<k. cos (real n * harmonic k (int i - int j))) / 2"
    using plus by simp
  also have "\<dots> = (if i = j then real k / 2 else 0)"
  proof (cases "i = j")
    case True
    then show ?thesis by (simp add: harmonic_def)
  next
    case False
    have "(\<Sum>n<k. cos (real n * harmonic k (int i - int j))) = 0"
      using assms False by (intro harmonic_sums(1) [OF k] not_dvd_diff) auto
    with False show ?thesis by simp
  qed
  finally show ?thesis .
qed

lemma sum_sin_any: "0 < k \<Longrightarrow> (\<Sum>n<k. sin (real n * harmonic k m)) = 0"
proof (cases "int k dvd m")
  case True
  assume k: "0 < k"
  from True obtain q where q: "m = int k * q" by (auto simp: dvd_def)
  have "\<And>n. real n * harmonic k m = pi * real_of_int (2 * int n * q)"
    using k by (simp add: harmonic_def q)
  then have "\<And>n. sin (real n * harmonic k m) = 0" by (simp only: sin_npi_int)
  then show ?thesis by simp
next
  case False
  assume "0 < k"
  then show ?thesis using False by (rule harmonic_sums(2))
qed

lemma sum_sin_cos:
  assumes "0 < k"
  shows "(\<Sum>n<k. sin (real n * harmonic k (int i)) * cos (real n * harmonic k (int j))) = 0"
proof -
  have "(\<Sum>n<k. sin (real n * harmonic k (int i)) * cos (real n * harmonic k (int j))) =
        (\<Sum>n<k. (sin (real n * harmonic k (int i + int j)) + sin (real n * harmonic k (int i - int j))) / 2)"
    by (simp add: sin_times_cos flip: harmonic_diff harmonic_add right_diff_distrib distrib_left)
  also have "\<dots> = ((\<Sum>n<k. sin (real n * harmonic k (int i + int j))) + (\<Sum>n<k. sin (real n * harmonic k (int i - int j)))) / 2"
    by (simp only: sum.distrib flip: sum_divide_distrib)
  also have "\<dots> = 0" using assms by (simp add: sum_sin_any)
  finally show ?thesis .
qed

lemma cos_row_harmonic: "cos_row k i = map (\<lambda>n. cos (real n * harmonic k (int i))) [0..<k]"
  by (simp add: cos_row_def arange_def harmonic_def comp_def mult_ac)

lemma sin_row_harmonic:
  "2 * i \<noteq> k \<Longrightarrow> sin_row R k i = map (\<lambda>n. sin (real n * harmonic k (int i))) [0..<k]"
  by (simp add: sin_row_def arange_def harmonic_def comp_def mult_ac)

lemma sum_list_upt: "(\<Sum>n\<leftarrow>[0..<k]. f n) = (\<Sum>n<k. f n)"
  by (simp add: interv_sum_list_conv_sum_set_nat atLeast0LessThan)

lemma dot_map: "dot (map f [0..<k]) (map g [0..<k]) = (\<Sum>n<k. f n * g n)"
proof -
  have "zip (map f [0..<k]) (map g [0..<k]) = map (\<lambda>n. (f n, g n)) [0..<k]"
    by (simp add: zip_map_map zip_same_conv_map)
  then show ?thesis by (simp add: dot_def comp_def sum_list_upt)
qed

lemma norm2_dot: "norm2 v = sqrt (dot v v)"
proof -
  have "zip v v = map (\<lambda>x. (x, x)) v" by (simp add: zip_same_conv_map)
  then show ?thesis by (simp add: norm2_def dot_def comp_def power2_eq_square)
qed

lemma norm2_cos_row:
  assumes "0 < i" "i + i < k"
  shows "norm2 (cos_row k i) = sqrt (real k / 2)"
  unfolding norm2_dot cos_row_harmonic dot_map using sum_cos_cos [OF assms(1) assms(1) assms(2)]
  by simp

lemma norm2_sin_row:
  assumes "0 < i" "i + i < k"
  shows "norm2 (sin_row R k i) = sqrt (real k / 2)"
proof -
  have ne: "2 * i \<noteq> k" using assms(2) by simp
  show ?thesis
    unfolding norm2_dot sin_row_harmonic [OF ne] dot_map
    using sum_sin_sin [OF assms(1) assms(1) assms(2)] by simp
qed

lemma div_scalar_Fin: "d \<noteq> 0 \<Longrightarrow> div_scalar v d = map Fin (map (\<lambda>x. x / d) v)"
  by (simp add: div_scalar_def fdiv_def)

section \<open>The Fourier basis: shape and entries\<close>

lemma cos_sq_sum_pos:
  assumes "0 < k"
  shows "0 < (\<Sum>m<k. (cos (2 * pi * real i * real m / real k))\<^sup>2)"
proof -
  have "(cos (2 * pi * real i * real 0 / real k))\<^sup>2 \<le>
        (\<Sum>m<k. (cos (2 * pi * real i * real m / real k))\<^sup>2)"
    using assms by (intro member_le_sum) auto
  then show ?thesis by simp
qed

lemma sin_sq_sum:
  assumes "0 < i" "i + i < k"
  shows "(\<Sum>m<k. (sin (2 * pi * real i * real m / real k))\<^sup>2) = real k / 2"
proof -
  have "sin (2 * pi * real i * real m / real k) = sin (real m * harmonic k (int i))" for m
    by (simp add: harmonic_def mult_ac)
  then show ?thesis
    using sum_sin_sin [OF assms(1) assms(1) assms(2)] by (simp add: power2_eq_square)
qed

lemma cos_row_entries:
  "cos_row k i = map (\<lambda>n. cos (2 * pi * real i * real n / real k)) [0..<k]"
  by (simp add: cos_row_def arange_def mult_ac)

lemma sin_row_entries:
  "2 * i \<noteq> k \<Longrightarrow> sin_row R k i = map (\<lambda>n. sin (2 * pi * real i * real n / real k)) [0..<k]"
  by (simp add: sin_row_def arange_def mult_ac)

lemma fourier_basis_cos_entry:
  assumes "1 \<le> i" "i \<le> k div 2" "n < k"
  shows "fourier_basis R k ! (2 * i - 1) ! n =
           Fin (cos (2 * pi * real i * real n / real k) /
                sqrt (\<Sum>m<k. (cos (2 * pi * real i * real m / real k))\<^sup>2))"
proof -
  have k: "0 < k" using assms by simp
  have ne: "sqrt (\<Sum>m<k. (cos (2 * pi * real i * real m / real k))\<^sup>2) \<noteq> 0"
    using cos_sq_sum_pos [OF k, of i] by simp
  have "fourier_basis R k ! (2 * i - 1) = div_scalar (cos_row k i) (norm2 (cos_row k i))"
    using assms by (intro fourier_basis_cos) auto
  then show ?thesis
    using assms(3) ne by (simp add: cos_row_entries norm2_map div_scalar_def fdiv_def)
qed

lemma fourier_basis_sin_entry:
  assumes "1 \<le> i" "i \<le> k div 2" "n < k" "2 * i \<noteq> k"
  shows "0 < (\<Sum>m<k. (sin (2 * pi * real i * real m / real k))\<^sup>2)"
    and "fourier_basis R k ! (2 * i) ! n =
           Fin (sin (2 * pi * real i * real n / real k) /
                sqrt (\<Sum>m<k. (sin (2 * pi * real i * real m / real k))\<^sup>2))"
proof -
  have i: "0 < i" "i + i < k" using assms by auto
  show pos: "0 < (\<Sum>m<k. (sin (2 * pi * real i * real m / real k))\<^sup>2)"
    using i by (simp add: sin_sq_sum)
  then have ne: "sqrt (\<Sum>m<k. (sin (2 * pi * real i * real m / real k))\<^sup>2) \<noteq> 0" by simp
  have "fourier_basis R k ! (2 * i) = div_scalar (sin_row R k i) (norm2 (sin_row R k i))"
    using assms by (intro fourier_basis_sin) auto
  then show "fourier_basis R k ! (2 * i) ! n =
           Fin (sin (2 * pi * real i * real n / real k) /
                sqrt (\<Sum>m<k. (sin (2 * pi * real i * real m / real k))\<^sup>2))"
    using assms(3) ne
    by (simp add: sin_row_entries [OF assms(4)] norm2_map div_scalar_def fdiv_def)
qed

text \<open>
  Claim C8, amended. For every \<open>k \<ge> 1\<close>, \<^verbatim>\<open>fourier_basis(k)\<close> has exactly
  \<open>1 + 2 * (k div 2)\<close> rows, each of length \<open>k\<close>: the constant row with every entry
  \<open>1 / sqrt k\<close>, followed for each \<open>i = 1, \<dots>, k div 2\<close> by the row of the cosines
  \<open>cos (2 \<pi> i n / k)\<close>, \<open>n = 0, \<dots>, k - 1\<close>, divided by its Euclidean norm, which is not 0,
  and, unless \<open>2 i = k\<close>, by the row of the sines \<open>sin (2 \<pi> i n / k)\<close> divided by its
  Euclidean norm, which is not 0; for even \<open>k\<close> the matrix has \<open>k + 1\<close> rows, one more than
  the dimension. Of the sine row at \<open>2 i = k\<close> only the length is stated.
\<close>

theorem fourier_basis_shape:
  assumes "1 \<le> k"
  shows "length (fourier_basis R k) = 1 + 2 * (k div 2)
    \<and> (\<forall>r \<in> set (fourier_basis R k). length r = k)
    \<and> fourier_basis R k ! 0 = replicate k (Fin (1 / sqrt (real k)))
    \<and> (\<forall>i n. 1 \<le> i \<and> i \<le> k div 2 \<and> n < k \<longrightarrow>
          0 < (\<Sum>m<k. (cos (2 * pi * real i * real m / real k))\<^sup>2)
        \<and> fourier_basis R k ! (2 * i - 1) ! n =
            Fin (cos (2 * pi * real i * real n / real k) /
                 sqrt (\<Sum>m<k. (cos (2 * pi * real i * real m / real k))\<^sup>2))
        \<and> (2 * i \<noteq> k \<longrightarrow>
              0 < (\<Sum>m<k. (sin (2 * pi * real i * real m / real k))\<^sup>2)
            \<and> fourier_basis R k ! (2 * i) ! n =
                Fin (sin (2 * pi * real i * real n / real k) /
                     sqrt (\<Sum>m<k. (sin (2 * pi * real i * real m / real k))\<^sup>2))))
    \<and> (even k \<longrightarrow> length (fourier_basis R k) = k + 1)"
proof -
  have k: "0 < k" using assms by simp
  have 1: "length (fourier_basis R k) = 1 + 2 * (k div 2)" by (rule length_fourier_basis)
  have 2: "\<forall>r \<in> set (fourier_basis R k). length r = k" using length_rows by blast
  have 3: "fourier_basis R k ! 0 = replicate k (Fin (1 / sqrt (real k)))"
    by (simp add: fourier_basis_eq const_row [OF k])
  have 4: "0 < (\<Sum>m<k. (cos (2 * pi * real i * real m / real k))\<^sup>2)" for i
    by (rule cos_sq_sum_pos [OF k])
  have 5: "fourier_basis R k ! (2 * i - 1) ! n =
            Fin (cos (2 * pi * real i * real n / real k) /
                 sqrt (\<Sum>m<k. (cos (2 * pi * real i * real m / real k))\<^sup>2))"
    if "1 \<le> i \<and> i \<le> k div 2 \<and> n < k" for i n
    using that by (intro fourier_basis_cos_entry) auto
  have 6: "0 < (\<Sum>m<k. (sin (2 * pi * real i * real m / real k))\<^sup>2)
         \<and> fourier_basis R k ! (2 * i) ! n =
                Fin (sin (2 * pi * real i * real n / real k) /
                     sqrt (\<Sum>m<k. (sin (2 * pi * real i * real m / real k))\<^sup>2))"
    if "1 \<le> i \<and> i \<le> k div 2 \<and> n < k" "2 * i \<noteq> k" for i n
    using that fourier_basis_sin_entry(1) [where i = i and k = k and n = n]
      fourier_basis_sin_entry(2) [where i = i and k = k and n = n and R = R] by auto
  have 7: "even k \<longrightarrow> length (fourier_basis R k) = k + 1"
    by (auto simp: length_fourier_basis)
  from 1 2 3 4 5 6 7 show ?thesis by blast
qed

text \<open>
  The statement at \<open>k = 4\<close>: five rows, the constant row \<open>1 / 2\<close>, and in the rows of
  frequency 1 the entries \<open>cos (\<pi> / 2) / sqrt 2 = 0\<close> and \<open>sin (\<pi> / 2) / sqrt 2\<close>.
\<close>

theorem fourier_basis_shape_witness:
  "length (fourier_basis float32_sine_row_2 4) = 5
     \<and> fourier_basis float32_sine_row_2 4 ! 0 = [Fin (1 / 2), Fin (1 / 2), Fin (1 / 2), Fin (1 / 2)]
     \<and> fourier_basis float32_sine_row_2 4 ! 1 ! 1 = Fin 0
     \<and> fourier_basis float32_sine_row_2 4 ! 2 ! 1 = Fin (1 / sqrt 2)"
proof -
  have s: "(\<Sum>m<4. (sin (2 * pi * real 1 * real m / real 4))\<^sup>2) = real 4 / 2"
    by (rule sin_sq_sum) simp_all
  have k4: "1 \<le> (4::nat)" by simp
  note th = fourier_basis_shape [OF k4, of float32_sine_row_2]
  have a: "length (fourier_basis float32_sine_row_2 4) = 1 + 2 * (4 div 2)"
    and b: "fourier_basis float32_sine_row_2 4 ! 0 = replicate 4 (Fin (1 / sqrt (real 4)))"
    using th by blast+
  have all: "\<forall>i n. 1 \<le> i \<and> i \<le> 4 div 2 \<and> n < 4 \<longrightarrow>
          0 < (\<Sum>m<4. (cos (2 * pi * real i * real m / real 4))\<^sup>2)
        \<and> fourier_basis float32_sine_row_2 4 ! (2 * i - 1) ! n =
            Fin (cos (2 * pi * real i * real n / real 4) /
                 sqrt (\<Sum>m<4. (cos (2 * pi * real i * real m / real 4))\<^sup>2))
        \<and> (2 * i \<noteq> 4 \<longrightarrow>
              0 < (\<Sum>m<4. (sin (2 * pi * real i * real m / real 4))\<^sup>2)
            \<and> fourier_basis float32_sine_row_2 4 ! (2 * i) ! n =
                Fin (sin (2 * pi * real i * real n / real 4) /
                     sqrt (\<Sum>m<4. (sin (2 * pi * real i * real m / real 4))\<^sup>2)))"
    using th by blast
  have h: "1 \<le> (1::nat) \<and> 1 \<le> (4::nat) div 2 \<and> (1::nat) < 4" "2 * (1::nat) \<noteq> 4" by simp_all
  from all [rule_format, OF h(1)] h(2)
  have c: "fourier_basis float32_sine_row_2 4 ! (2 * 1 - 1) ! 1 =
            Fin (cos (2 * pi * real 1 * real 1 / real 4) /
                 sqrt (\<Sum>m<4. (cos (2 * pi * real 1 * real m / real 4))\<^sup>2))"
    and d: "fourier_basis float32_sine_row_2 4 ! (2 * 1) ! 1 =
                Fin (sin (2 * pi * real 1 * real 1 / real 4) /
                     sqrt (\<Sum>m<4. (sin (2 * pi * real 1 * real m / real 4))\<^sup>2))"
    by blast+
  have e: "2 * pi * real 1 * real 1 / real 4 = pi / 2" by simp
  have c': "fourier_basis float32_sine_row_2 4 ! 1 ! 1 = Fin 0"
    using c unfolding e by simp
  have d': "fourier_basis float32_sine_row_2 4 ! 2 ! 1 = Fin (1 / sqrt 2)"
    using d unfolding e s by simp
  have a': "length (fourier_basis float32_sine_row_2 4) = 5" using a by simp
  have "replicate 4 (Fin (1 / sqrt (real 4))) = [Fin (1 / 2), Fin (1 / 2), Fin (1 / 2), Fin (1 / 2)]"
    by (simp add: numeral_eq_Suc)
  with b have b': "fourier_basis float32_sine_row_2 4 ! 0 =
      [Fin (1 / 2), Fin (1 / 2), Fin (1 / 2), Fin (1 / 2)]" by simp
  from a' b' c' d' show ?thesis by blast
qed


section \<open>The Fourier basis: one row too many for even \<open>k\<close>\<close>

lemma bessel_coordinate:
  fixes u :: "nat \<Rightarrow> nat \<Rightarrow> real"
  assumes on: "\<And>i j. i < m \<Longrightarrow> j < m \<Longrightarrow> (\<Sum>n<k. u i n * u j n) = (if i = j then 1 else 0)"
    and n0: "n0 < k"
  shows "(\<Sum>i<m. (u i n0)\<^sup>2) \<le> 1"
proof -
  define c where "c i = u i n0" for i
  define S where "S n = (\<Sum>i<m. c i * u i n)" for n
  define e :: "nat \<Rightarrow> real" where "e n = (if n = n0 then 1 else 0)" for n
  have e2: "(\<Sum>n<k. e n * e n) = 1"
  proof -
    have "(\<Sum>n<k. e n * e n) = (\<Sum>n<k. if n = n0 then 1 else 0)"
      by (intro sum.cong) (auto simp: e_def)
    also have "\<dots> = 1" using n0 by (simp add: sum.delta)
    finally show ?thesis .
  qed
  have eS: "(\<Sum>n<k. e n * S n) = (\<Sum>i<m. c i * c i)"
  proof -
    have "(\<Sum>n<k. e n * S n) = (\<Sum>n<k. if n = n0 then S n else 0)"
      by (intro sum.cong) (auto simp: e_def)
    also have "\<dots> = S n0" using n0 by (simp add: sum.delta)
    also have "\<dots> = (\<Sum>i<m. c i * c i)" by (simp add: S_def c_def)
    finally show ?thesis .
  qed
  have SS: "(\<Sum>n<k. S n * S n) = (\<Sum>i<m. c i * c i)"
  proof -
    have "(\<Sum>n<k. S n * S n) = (\<Sum>n<k. \<Sum>i<m. \<Sum>j<m. (c i * c j) * (u i n * u j n))"
      unfolding S_def sum_product by (intro sum.cong refl) (simp add: mult_ac)
    also have "\<dots> = (\<Sum>i<m. \<Sum>n<k. \<Sum>j<m. (c i * c j) * (u i n * u j n))"
      by (rule sum.swap)
    also have "\<dots> = (\<Sum>i<m. \<Sum>j<m. \<Sum>n<k. (c i * c j) * (u i n * u j n))"
      by (intro sum.cong refl sum.swap)
    also have "\<dots> = (\<Sum>i<m. \<Sum>j<m. (c i * c j) * (\<Sum>n<k. u i n * u j n))"
      by (simp add: sum_distrib_left)
    also have "\<dots> = (\<Sum>i<m. \<Sum>j<m. if i = j then c i * c j else 0)"
      by (intro sum.cong refl) (simp add: on)
    also have "\<dots> = (\<Sum>i<m. \<Sum>j<m. if j = i then c i * c i else 0)"
      by (intro sum.cong refl) auto
    also have "\<dots> = (\<Sum>i<m. c i * c i)"
      by (intro sum.cong refl) (simp add: sum.delta)
    finally show ?thesis .
  qed
  have "0 \<le> (\<Sum>n<k. (e n - S n) * (e n - S n))"
    by (intro sum_nonneg) simp
  also have "(\<Sum>n<k. (e n - S n) * (e n - S n)) =
      (\<Sum>n<k. e n * e n) - 2 * (\<Sum>n<k. e n * S n) + (\<Sum>n<k. S n * S n)"
    by (simp add: algebra_simps sum.distrib sum_subtractf sum_distrib_left)
  also have "\<dots> = 1 - (\<Sum>i<m. c i * c i)" by (simp add: e2 eS SS)
  finally have "(\<Sum>i<m. c i * c i) \<le> 1" by simp
  then show ?thesis by (simp add: c_def power2_eq_square)
qed

lemma orthonormal_family_bound:
  fixes u :: "nat \<Rightarrow> nat \<Rightarrow> real"
  assumes on: "\<And>i j. i < m \<Longrightarrow> j < m \<Longrightarrow> (\<Sum>n<k. u i n * u j n) = (if i = j then 1 else 0)"
  shows "m \<le> k"
proof -
  have "real m = (\<Sum>i<m. \<Sum>n<k. u i n * u i n)"
    by (simp add: on)
  also have "\<dots> = (\<Sum>n<k. \<Sum>i<m. (u i n)\<^sup>2)"
    unfolding power2_eq_square by (rule sum.swap)
  also have "\<dots> \<le> (\<Sum>n<k. 1)"
    by (intro sum_mono bessel_coordinate [OF on]) auto
  also have "\<dots> = real k" by simp
  finally show ?thesis by simp
qed

lemma those_Some_nth:
  "those xs = Some ys \<Longrightarrow> length ys = length xs \<and> (\<forall>i<length xs. xs ! i = Some (ys ! i))"
proof (induction xs arbitrary: ys)
  case Nil
  then show ?case by simp
next
  case (Cons x xs)
  from Cons.prems obtain y zs where x: "x = Some y" and zs: "those xs = Some zs" and ys: "ys = y # zs"
    by (auto split: option.splits)
  from Cons.IH [OF zs] x ys show ?case by (auto simp: nth_Cons')
qed

lemma reals_of_length: "reals_of r = Some v \<Longrightarrow> length v = length r"
  unfolding reals_of_def using those_Some_nth [of "map fin_of r" v] by simp

lemma dot_nth:
  assumes "length a = k" "length b = k"
  shows "dot a b = (\<Sum>n<k. a ! n * b ! n)"
proof -
  have a: "map ((!) a) [0..<k] = a" using map_nth [of a] assms(1) by simp
  have b: "map ((!) b) [0..<k] = b" using map_nth [of b] assms(2) by simp
  have "dot (map ((!) a) [0..<k]) (map ((!) b) [0..<k]) = (\<Sum>n<k. a ! n * b ! n)"
    by (rule dot_map)
  then show ?thesis by (simp only: a b)
qed

lemma orthonormal_rows_bound:
  assumes on: "orthonormal_rows M" and len: "\<forall>r \<in> set M. length r = k"
  shows "length M \<le> k"
proof -
  from on obtain Rs where Rs: "those (map reals_of M) = Some Rs"
    and n1: "\<forall>i<length Rs. norm2 (Rs ! i) = 1"
    and d0: "\<forall>i<length Rs. \<forall>j<length Rs. i \<noteq> j \<longrightarrow> dot (Rs ! i) (Rs ! j) = 0"
    by (auto simp: orthonormal_rows_def split: option.splits)
  from those_Some_nth [OF Rs]
  have lm: "length Rs = length M" and row: "\<forall>i<length M. reals_of (M ! i) = Some (Rs ! i)"
    by simp_all
  have lr: "length (Rs ! i) = k" if "i < length M" for i
    using reals_of_length [of "M ! i" "Rs ! i"] row len that by simp
  have "(\<Sum>n<k. Rs ! i ! n * Rs ! j ! n) = (if i = j then 1 else 0)"
    if "i < length M" "j < length M" for i j
  proof -
    have d: "(\<Sum>n<k. Rs ! i ! n * Rs ! j ! n) = dot (Rs ! i) (Rs ! j)"
      using dot_nth [OF lr [OF that(1)] lr [OF that(2)]] by simp
    show ?thesis
    proof (cases "i = j")
      case True
      have "sqrt (dot (Rs ! i) (Rs ! i)) = 1" using n1 that(1) lm by (simp add: norm2_dot)
      then have "dot (Rs ! i) (Rs ! i) = 1" by simp
      with d True show ?thesis by simp
    next
      case False
      with d0 that lm d show ?thesis by simp
    qed
  qed
  then show ?thesis by (rule orthonormal_family_bound)
qed

lemma cos_row_2: "cos_row 2 1 = [1, - 1]"
  by (simp add: cos_row_def arange_def upt_conv_Cons)

lemma sin_row_2: "sin_row float32_sine_row_2 2 1 = [0, - 8742278 / 10 ^ 14]"
  by (simp add: sin_row_def float32_sine_row_2_def upt_conv_Cons)

lemma fourier_basis_2:
  "fourier_basis float32_sine_row_2 2 =
     [[Fin (1 / sqrt 2), Fin (1 / sqrt 2)],
      [Fin (1 / sqrt 2), Fin (- (1 / sqrt 2))],
      [Fin 0, Fin (- 1)]]"
proof -
  have n1: "norm2 [1, - 1] = sqrt 2" by (simp add: norm2_def)
  have n2: "norm2 [0, - 8742278 / 10 ^ 14] = 8742278 / 10 ^ 14"
    by (simp add: norm2_def real_sqrt_divide)
  have r0: "div_scalar (ones 2) (sqrt (real 2)) = [Fin (1 / sqrt 2), Fin (1 / sqrt 2)]"
    by (simp add: div_scalar_def ones_def fdiv_def numeral_2_eq_2)
  have r1: "div_scalar (cos_row 2 1) (norm2 (cos_row 2 1)) = [Fin (1 / sqrt 2), Fin (- (1 / sqrt 2))]"
    unfolding cos_row_2 n1 by (simp add: div_scalar_def fdiv_def)
  have r2: "div_scalar (sin_row float32_sine_row_2 2 1) (norm2 (sin_row float32_sine_row_2 2 1)) =
      [Fin 0, Fin (- 1)]"
    unfolding sin_row_2 n2 by (simp add: div_scalar_def fdiv_def)
  have l: "[1..<2 div 2 + 1] = [1::nat]" by (simp add: upt_conv_Cons)
  show ?thesis
    unfolding fourier_basis_def l fourier_loop.simps Let_def r0 r1 r2 by simp
qed

text \<open>
  Claim C2 says that for every \<open>k \<ge> 1\<close> the rows of \<^verbatim>\<open>fourier_basis(k)\<close> are orthonormal.
  For even \<open>k\<close> the code does not deliver that: the loop runs up to \<open>i = k div 2\<close> and
  appends a sine row there too, so the matrix has \<open>k + 1\<close> rows of length \<open>k\<close>, and \<open>k + 1\<close>
  vectors of dimension \<open>k\<close> are never orthonormal, whatever the entries of the last row.
\<close>

theorem fourier_basis_even_not_orthonormal:
  assumes "even k" "0 < k"
  shows "length (fourier_basis R k) = k + 1
       \<and> (\<forall>r \<in> set (fourier_basis R k). length r = k)
       \<and> \<not> orthonormal_rows (fourier_basis R k)"
proof -
  have len: "length (fourier_basis R k) = k + 1"
    using assms(1) by (simp add: length_fourier_basis)
  have rows: "\<forall>r \<in> set (fourier_basis R k). length r = k" using length_rows by blast
  have "\<not> orthonormal_rows (fourier_basis R k)"
  proof
    assume "orthonormal_rows (fourier_basis R k)"
    from orthonormal_rows_bound [OF this rows] len show False by simp
  qed
  with len rows show ?thesis by blast
qed

text \<open>
  The failing input \<open>k = 2\<close>: three rows of length two; the last is \<open>[0, -1]\<close>, and its dot
  product with the constant row is \<open>-1 / sqrt 2\<close>, not 0.
\<close>

theorem fourier_basis_2_not_orthonormal:
  "fourier_basis float32_sine_row_2 2 =
     [[Fin (1 / sqrt 2), Fin (1 / sqrt 2)],
      [Fin (1 / sqrt 2), Fin (- (1 / sqrt 2))],
      [Fin 0, Fin (- 1)]]
   \<and> dot [1 / sqrt 2, 1 / sqrt 2] [0, - 1] = - (1 / sqrt 2)
   \<and> \<not> orthonormal_rows (fourier_basis float32_sine_row_2 2)"
  using fourier_basis_even_not_orthonormal [of 2 float32_sine_row_2]
  by (simp add: fourier_basis_2 dot_def)

text \<open>
  Claim C8 as it stands fails at \<open>k = 2\<close>: the sines \<open>sin (2 \<pi> n / 2)\<close>, \<open>n = 0, 1\<close>, are
  both 0 and have no normalisation, while the last row of \<^verbatim>\<open>fourier_basis(2)\<close> is
  \<open>[0, -1]\<close>.
\<close>

theorem fourier_basis_2_sine_row:
  "fourier_basis float32_sine_row_2 2 ! 2 = [Fin 0, Fin (- 1)]
     \<and> sin (2 * pi * real 1 * real 0 / real 2) = 0
     \<and> sin (2 * pi * real 1 * real 1 / real 2) = 0"
  by (simp add: fourier_basis_2)


section \<open>The Fourier basis: orthonormality for odd \<open>k\<close>\<close>

lemma freq_bounds:
  assumes "odd k" "a < k" "0 < a"
  shows "0 < freq a" "freq a + freq a < k" "freq a \<le> k div 2"
proof -
  show "0 < freq a" using assms(3) by (auto simp: freq_def elim: oddE)
  show "freq a + freq a < k" using assms by (auto simp: freq_def elim!: oddE evenE)
  then show "freq a \<le> k div 2" by simp
qed

lemma fourier_basis_row_odd:
  assumes "odd k" "a < k"
  shows "fourier_basis R k ! a = map Fin (basis_row k a)"
proof -
  have k: "0 < k" using assms by simp
  have sq: "sqrt (real k / 2) \<noteq> 0" using k by simp
  consider (const) "a = 0" | (cos) "0 < a" "odd a" | (sin) "0 < a" "even a" by auto
  then show ?thesis
  proof cases
    case const
    have "fourier_basis R k ! 0 = replicate k (Fin (1 / sqrt (real k)))"
      by (simp add: fourier_basis_eq const_row [OF k])
    also have "\<dots> = map Fin (basis_row k 0)"
      by (simp add: basis_row_def basis_entry_def map_replicate_const comp_def)
    finally show ?thesis using const by simp
  next
    case cos
    let ?i = "freq a"
    have b: "0 < ?i" "?i + ?i < k" "?i \<le> k div 2" using freq_bounds [OF assms cos(1)] by auto
    have idx: "2 * ?i - 1 = a" using cos by (auto simp: freq_def elim!: oddE)
    have fr: "?i = (a + 1) div 2" using cos by (simp add: freq_def)
    have "fourier_basis R k ! (2 * ?i - 1) = div_scalar (cos_row k ?i) (norm2 (cos_row k ?i))"
      using b by (intro fourier_basis_cos) auto
    also have "\<dots> = map Fin (map (\<lambda>x. x / sqrt (real k / 2)) (cos_row k ?i))"
      by (simp only: norm2_cos_row [OF b(1) b(2)] div_scalar_Fin [OF sq])
    also have "map (\<lambda>x. x / sqrt (real k / 2)) (cos_row k ?i) = basis_row k a"
      using cos by (simp add: cos_row_harmonic basis_row_def basis_entry_def comp_def fr)
    finally show ?thesis by (simp only: idx)
  next
    case sin
    let ?i = "freq a"
    have b: "0 < ?i" "?i + ?i < k" "?i \<le> k div 2" using freq_bounds [OF assms sin(1)] by auto
    have idx: "2 * ?i = a" using sin by (auto simp: freq_def elim!: evenE)
    have fr: "?i = a div 2" using sin by (simp add: freq_def)
    have "fourier_basis R k ! (2 * ?i) = div_scalar (sin_row R k ?i) (norm2 (sin_row R k ?i))"
      using b by (intro fourier_basis_sin) auto
    also have "\<dots> = map Fin (map (\<lambda>x. x / sqrt (real k / 2)) (sin_row R k ?i))"
      by (simp only: norm2_sin_row [OF b(1) b(2)] div_scalar_Fin [OF sq])
    also have "map (\<lambda>x. x / sqrt (real k / 2)) (sin_row R k ?i) = basis_row k a"
    proof -
      have ne: "2 * ?i \<noteq> k" using b(2) by simp
      have "sin_row R k ?i = map (\<lambda>n. sin (real n * harmonic k (int ?i))) [0..<k]"
        by (rule sin_row_harmonic [OF ne])
      then show ?thesis
        using sin by (simp add: basis_row_def basis_entry_def comp_def fr)
    qed
    finally show ?thesis by (simp only: idx)
  qed
qed

lemma fourier_basis_odd_rows:
  assumes "odd k"
  shows "fourier_basis R k = map (\<lambda>a. map Fin (basis_row k a)) [0..<k]"
proof (rule nth_equalityI)
  show "length (fourier_basis R k) = length (map (\<lambda>a. map Fin (basis_row k a)) [0..<k])"
    using assms by (auto simp: length_fourier_basis elim!: oddE)
next
  fix a assume "a < length (fourier_basis R k)"
  then have "a < k" using assms by (auto simp: length_fourier_basis elim!: oddE)
  then show "fourier_basis R k ! a = map (\<lambda>a. map Fin (basis_row k a)) [0..<k] ! a"
    using fourier_basis_row_odd [OF assms] by simp
qed

lemma those_rows_odd:
  assumes "odd k"
  shows "those (map reals_of (fourier_basis R k)) = Some (map (basis_row k) [0..<k])"
proof -
  have "map reals_of (fourier_basis R k) = map Some (map (basis_row k) [0..<k])"
    by (simp add: fourier_basis_odd_rows [OF assms] comp_def reals_of_Fin)
  then show ?thesis by (simp only: those_map_Some)
qed

lemma sum_scaled:
  fixes f g :: "nat \<Rightarrow> real"
  shows "(\<Sum>n<k. (f n / c) * (g n / d)) = (\<Sum>n<k. f n * g n) / (c * d)"
  by (simp only: times_divide_times_eq sum_divide_distrib)

lemma gram_const_const: "0 < k \<Longrightarrow> (\<Sum>n<k. (1 / sqrt (real k)) * (1 / sqrt (real k))) = 1"
  by simp

lemma gram_const_cos:
  assumes "0 < i" "i < k"
  shows "(\<Sum>n<k. (1 / sqrt (real k)) * (cos (real n * harmonic k (int i)) / sqrt (real k / 2))) = 0"
proof -
  have "(\<Sum>n<k. cos (real n * harmonic k (int i))) = 0"
    using assms by (intro harmonic_sums(1) not_dvd_small) auto
  then have "(\<Sum>n<k. 1 * cos (real n * harmonic k (int i))) / (sqrt (real k) * sqrt (real k / 2)) = 0"
    by simp
  then show ?thesis by (simp only: sum_scaled)
qed

lemma gram_const_sin:
  assumes "0 < k"
  shows "(\<Sum>n<k. (1 / sqrt (real k)) * (sin (real n * harmonic k (int i)) / sqrt (real k / 2))) = 0"
proof -
  have "(\<Sum>n<k. 1 * sin (real n * harmonic k (int i))) / (sqrt (real k) * sqrt (real k / 2)) = 0"
    using sum_sin_any [OF assms] by simp
  then show ?thesis by (simp only: sum_scaled)
qed

lemma gram_cos_cos:
  assumes "0 < i" "0 < j" "i + j < k"
  shows "(\<Sum>n<k. (cos (real n * harmonic k (int i)) / sqrt (real k / 2)) *
                 (cos (real n * harmonic k (int j)) / sqrt (real k / 2))) = (if i = j then 1 else 0)"
proof -
  have k: "0 < real k" using assms by simp
  show ?thesis
    unfolding sum_scaled sum_cos_cos [OF assms] using k by simp
qed

lemma gram_sin_sin:
  assumes "0 < i" "0 < j" "i + j < k"
  shows "(\<Sum>n<k. (sin (real n * harmonic k (int i)) / sqrt (real k / 2)) *
                 (sin (real n * harmonic k (int j)) / sqrt (real k / 2))) = (if i = j then 1 else 0)"
proof -
  have k: "0 < real k" using assms by simp
  show ?thesis
    unfolding sum_scaled sum_sin_sin [OF assms] using k by simp
qed

lemma gram_sin_cos:
  assumes "0 < k"
  shows "(\<Sum>n<k. (sin (real n * harmonic k (int i)) / sqrt (real k / 2)) *
                 (cos (real n * harmonic k (int j)) / sqrt (real k / 2))) = 0"
  unfolding sum_scaled sum_sin_cos [OF assms] by simp

lemma entry_const: "basis_entry k 0 n = 1 / sqrt (real k)"
  by (simp add: basis_entry_def)

lemma entry_cos:
  "0 < a \<Longrightarrow> odd a \<Longrightarrow>
     basis_entry k a n = cos (real n * harmonic k (int (freq a))) / sqrt (real k / 2)"
  by (simp add: basis_entry_def freq_def)

lemma entry_sin:
  "0 < a \<Longrightarrow> even a \<Longrightarrow>
     basis_entry k a n = sin (real n * harmonic k (int (freq a))) / sqrt (real k / 2)"
  by (simp add: basis_entry_def freq_def)

lemma freq_eq_odd: "odd a \<Longrightarrow> odd b \<Longrightarrow> freq a = freq b \<longleftrightarrow> a = b"
  by (auto simp: freq_def elim!: oddE)

lemma freq_eq_even: "even a \<Longrightarrow> even b \<Longrightarrow> freq a = freq b \<longleftrightarrow> a = b"
  by (auto simp: freq_def elim!: evenE)

lemma gram_entries:
  assumes "odd k" "a < k" "b < k"
  shows "(\<Sum>n<k. basis_entry k a n * basis_entry k b n) = (if a = b then 1 else 0)"
proof -
  have k: "0 < k" using assms by simp
  have fa: "0 < a \<Longrightarrow> 0 < freq a \<and> freq a + freq a < k"
    using freq_bounds [OF assms(1) assms(2)] by simp
  have fb: "0 < b \<Longrightarrow> 0 < freq b \<and> freq b + freq b < k"
    using freq_bounds [OF assms(1) assms(3)] by simp
  have fab: "0 < a \<Longrightarrow> 0 < b \<Longrightarrow> freq a + freq b < k"
    using fa fb by linarith
  consider (a0) "a = 0" | (ac) "0 < a" "odd a" | (as) "0 < a" "even a" by auto
  then show ?thesis
  proof cases
    case a0
    consider (b0) "b = 0" | (bc) "0 < b" "odd b" | (bs) "0 < b" "even b" by auto
    then show ?thesis
    proof cases
      case b0
      show ?thesis unfolding a0 b0 entry_const using gram_const_const [OF k] by simp
    next
      case bc
      have "freq b < k" using fb bc by simp
      then show ?thesis
        unfolding a0 entry_const entry_cos [OF bc]
        using gram_const_cos [of "freq b" k] fb bc by simp
    next
      case bs
      show ?thesis
        unfolding a0 entry_const entry_sin [OF bs]
        using gram_const_sin [OF k, of "freq b"] bs by simp
    qed
  next
    case ac
    consider (b0) "b = 0" | (bc) "0 < b" "odd b" | (bs) "0 < b" "even b" by auto
    then show ?thesis
    proof cases
      case b0
      have "freq a < k" using fa ac by simp
      then show ?thesis
        unfolding b0 entry_const entry_cos [OF ac]
        using gram_const_cos [of "freq a" k] fa ac by (simp add: mult.commute)
    next
      case bc
      show ?thesis
        unfolding entry_cos [OF ac] entry_cos [OF bc]
        using gram_cos_cos [of "freq a" "freq b" k] fa fb fab ac bc
        by (simp add: freq_eq_odd)
    next
      case bs
      have "a \<noteq> b" using ac bs by auto
      then show ?thesis
        unfolding entry_cos [OF ac] entry_sin [OF bs]
        using gram_sin_cos [OF k, of "freq b" "freq a"] by (simp add: mult.commute)
    qed
  next
    case as
    consider (b0) "b = 0" | (bc) "0 < b" "odd b" | (bs) "0 < b" "even b" by auto
    then show ?thesis
    proof cases
      case b0
      show ?thesis
        unfolding b0 entry_const entry_sin [OF as]
        using gram_const_sin [OF k, of "freq a"] as by (simp add: mult.commute)
    next
      case bc
      have "a \<noteq> b" using as bc by auto
      then show ?thesis
        unfolding entry_sin [OF as] entry_cos [OF bc]
        using gram_sin_cos [OF k, of "freq a" "freq b"] by simp
    next
      case bs
      show ?thesis
        unfolding entry_sin [OF as] entry_sin [OF bs]
        using gram_sin_sin [of "freq a" "freq b" k] fa fb fab as bs
        by (simp add: freq_eq_even)
    qed
  qed
qed

lemma dot_basis_rows:
  assumes "odd k" "a < k" "b < k"
  shows "dot (basis_row k a) (basis_row k b) = (if a = b then 1 else 0)"
  unfolding basis_row_def dot_map by (rule gram_entries [OF assms])

text \<open>
  For odd \<open>k\<close> the loop stops at \<open>i = (k - 1) / 2\<close>, no row vanishes, and the \<open>k\<close> rows are
  orthonormal.
\<close>

theorem fourier_basis_odd_orthonormal:
  assumes "odd k"
  shows "orthonormal_rows (fourier_basis R k)"
proof -
  have n: "norm2 (map (basis_row k) [0..<k] ! i) = 1" if "i < k" for i
    using that dot_basis_rows [OF assms that that] by (simp add: norm2_dot)
  have d: "dot (map (basis_row k) [0..<k] ! i) (map (basis_row k) [0..<k] ! j) = 0"
    if "i < k" "j < k" "i \<noteq> j" for i j
    using that dot_basis_rows [OF assms that(1) that(2)] by simp
  show ?thesis
    unfolding orthonormal_rows_def those_rows_odd [OF assms]
    using n d by simp
qed

theorem fourier_basis_3_orthonormal: "orthonormal_rows (fourier_basis R 3)"
  using fourier_basis_odd_orthonormal [where k = 3] by simp

section \<open>The Optimizer and the loss\<close>

lemma last_item_Nil: "last_item [] = Inl IndexError"
  by (simp add: last_item_def)

lemma last_item_nonempty: "xs \<noteq> [] \<Longrightarrow> last_item xs = Inr (last xs)"
  by (cases xs) (simp_all add: last_item_def)

lemma last_item_cases: "last_item xs = (if xs = [] then Inl IndexError else Inr (last xs))"
  by (simp add: last_item_Nil last_item_nonempty)

text \<open>
  Claim C7. Whenever both loss histories hold a measurement, \<^verbatim>\<open>display\<close> returns a
  dictionary with exactly the keys \<^verbatim>\<open>lr\<close>, \<^verbatim>\<open>train\<close>, \<^verbatim>\<open>test\<close> and \<^verbatim>\<open>gpu\<close>, in which
  \<^verbatim>\<open>train\<close> and \<^verbatim>\<open>test\<close> are \<^verbatim>\<open>np.log\<close> of the most recent entry of the train and the test
  history, formatted with four decimals (the natural logarithm when the entry is
  positive), and \<^verbatim>\<open>lr\<close> is the learning rate the scheduler applied last.
\<close>

theorem display_returns:
  assumes "train_losses self \<noteq> []" "test_losses self \<noteq> []"
  shows "\<exists>d. display F allocated self = Inr d
           \<and> map fst d = [''lr'', ''train'', ''test'', ''gpu'']
           \<and> map_of d ''lr'' = Some (str_float F (last_lr (scheduler self)))
           \<and> map_of d ''train'' = Some (format_fixed F 4 (np_log (last (train_losses self))))
           \<and> map_of d ''test'' = Some (format_fixed F 4 (np_log (last (test_losses self))))
           \<and> (0 < last (train_losses self) \<longrightarrow>
                 np_log (last (train_losses self)) = Fin (ln (last (train_losses self))))
           \<and> (0 < last (test_losses self) \<longrightarrow>
                 np_log (last (test_losses self)) = Fin (ln (last (test_losses self))))"
  using assms by (simp add: display_def last_item_cases np_log_def)

text \<open>
  Claim C9. \<^verbatim>\<open>display\<close> fails with IndexError exactly when the train or the test
  history is empty, and returns a dictionary exactly when both are non-empty.
\<close>

theorem display_fails:
  "(display F allocated self = Inl IndexError) =
      (train_losses self = [] \<or> test_losses self = [])
   \<and> (\<exists>d. display F allocated self = Inr d) =
      (train_losses self \<noteq> [] \<and> test_losses self \<noteq> [])"
  by (simp add: display_def last_item_cases)

lemma measure_loss_result:
  "measure_loss self model data dev =
     ((loss_func self model (train_in data) (train_label data) (device_or dev (device self)),
       loss_func self model (test_in data) (test_label data) (device_or dev (device self))),
      self\<lparr>train_losses := train_losses self @
                [loss_func self model (train_in data) (train_label data) (device_or dev (device self))],
           test_losses := test_losses self @
                [loss_func self model (test_in data) (test_label data) (device_or dev (device self))]\<rparr>)"
  by (simp add: measure_loss_def Let_def)

lemma gradient_update_self:
  "fst (gradient_update X self model data dev) =
     (snd (measure_loss self model data dev))
       \<lparr>optimizer := snd (scheduler_step (scheduler self,
            fst (optimizer_step X (optimizer self) (backward X (train_graph self model data dev) model)))),
        scheduler := fst (scheduler_step (scheduler self,
            fst (optimizer_step X (optimizer self) (backward X (train_graph self model data dev) model))))\<rparr>"
  by (simp add: gradient_update_def measure_loss_result split_beta Let_def)

lemma step_self:
  "fst (snd (step X self model data dev)) =
     (let self3 = fst (gradient_update X self model data dev);
          model3 = snd (gradient_update X self model data dev)
      in if fixed_wnorm (config self) \<and> wnorm X (parameters model3) = 0 then self3
         else self3\<lparr>epoch := epoch self3 + 1\<rparr>)"
  by (simp add: step_def split_beta Let_def gradient_update_self measure_loss_result)


lemma step_frame_fields:
  "config (fst (snd (step X self model data dev))) = config self"
  "loss_func (fst (snd (step X self model data dev))) = loss_func self"
  "device (fst (snd (step X self model data dev))) = device self"
  "start_norm (fst (snd (step X self model data dev))) = start_norm self"
  by (simp_all add: step_self gradient_update_self measure_loss_result Let_def)


lemma step_schedule:
  "(scheduler (fst (snd (step X self model data dev))), optimizer (fst (snd (step X self model data dev)))) =
     scheduler_step (scheduler self,
       fst (optimizer_step X (optimizer self) (backward X (train_graph self model data dev) model)))"
  by (simp add: step_self gradient_update_self measure_loss_result Let_def)

lemma measure_loss_frame_fields:
  "config (snd (measure_loss self model data dev)) = config self"
  "loss_func (snd (measure_loss self model data dev)) = loss_func self"
  "device (snd (measure_loss self model data dev)) = device self"
  "start_norm (snd (measure_loss self model data dev)) = start_norm self"
  "epoch (snd (measure_loss self model data dev)) = epoch self"
  "optimizer (snd (measure_loss self model data dev)) = optimizer self"
  "scheduler (snd (measure_loss self model data dev)) = scheduler self"
  by (simp_all add: measure_loss_result)




lemma apply_operation_frame:
  "config (fst (apply_operation X op st)) = config (fst st)"
  "start_norm (fst (apply_operation X op st)) = start_norm (fst st)"
  "loss_func (fst (apply_operation X op st)) = loss_func (fst st)"
  "device (fst (apply_operation X op st)) = device (fst st)"
  by (cases op; cases st; simp add: measure_loss_frame_fields step_frame_fields)+

lemma run_frame:
  "config (fst (run X ops st)) = config (fst st)
   \<and> start_norm (fst (run X ops st)) = start_norm (fst st)
   \<and> loss_func (fst (run X ops st)) = loss_func (fst st)
   \<and> device (fst (run X ops st)) = device (fst st)"
  unfolding run_def
  by (induction ops arbitrary: st) (simp_all add: apply_operation_frame)

lemma init_fields:
  assumes "init X cfg model lf dev = Inr self"
  shows "config self = cfg" "loss_func self = lf" "device self = dev" "epoch self = 0"
    "start_norm self = wnorm X (parameters model)" "train_losses self = []" "test_losses self = []"
    "0 \<le> learning_rate cfg" "0 \<le> weight_decay cfg" "parameters model \<noteq> []"
    "schedule_at (learning_rate cfg) 0 (scheduler self, optimizer self)"
  using assms
  by (auto simp: init_def new_adamw_def new_lambda_lr_def scheduler_step_def schedule_at_def
      lr_lambda_def Let_def split: if_splits)

lemma scheduler_step_schedule:
  "schedule_at b n st \<Longrightarrow> schedule_at b (Suc n) (scheduler_step st)"
  by (cases st) (simp add: schedule_at_def scheduler_step_def Let_def add.commute)

lemma optimizer_step_lr: "lr (fst (optimizer_step X opt model)) = lr opt"
  by (simp add: optimizer_step_def split_beta split: option.splits)

lemma schedule_at_optimizer_step:
  "schedule_at b n (sch, opt) \<Longrightarrow> schedule_at b n (sch, fst (optimizer_step X opt model))"
  by (simp add: schedule_at_def optimizer_step_lr)

lemma apply_operation_schedule:
  assumes "schedule_at b n (scheduler (fst st), optimizer (fst st))"
  shows "schedule_at b (n + (if advances_scheduler op then 1 else 0))
           (scheduler (fst (apply_operation X op st)), optimizer (fst (apply_operation X op st)))"
proof (cases st)
  case (Pair self model)
  show ?thesis
  proof (cases op)
    case (Measure_loss data dev)
    then show ?thesis using assms Pair by (simp add: measure_loss_frame_fields)
  next
    case (Step data dev)
    have "schedule_at b (Suc n) (scheduler_step (scheduler self,
       fst (optimizer_step X (optimizer self) (backward X (train_graph self model data dev) model))))"
      using assms Pair by (intro scheduler_step_schedule schedule_at_optimizer_step) simp
    then show ?thesis using Step Pair by (simp add: step_schedule)
  next
    case (Display allocated)
    then show ?thesis using assms Pair by simp
  qed
qed

lemma run_schedule:
  "schedule_at b n (scheduler (fst st), optimizer (fst st)) \<Longrightarrow>
     schedule_at b (n + scheduler_steps ops)
       (scheduler (fst (run X ops st)), optimizer (fst (run X ops st)))"
  unfolding run_def scheduler_steps_def
proof (induction ops arbitrary: st n)
  case Nil
  then show ?case by simp
next
  case (Cons op ops)
  from apply_operation_schedule [OF Cons.prems, of op X]
  have "schedule_at b (n + (if advances_scheduler op then 1 else 0))
     (scheduler (fst (apply_operation X op st)), optimizer (fst (apply_operation X op st)))" .
  from Cons.IH [OF this] show ?case by (cases "advances_scheduler op") (simp_all add: add.assoc)
qed

text \<open>
  Claim C5. The schedule is a linear warmup: on a constructed Optimizer, after a run
  with \<open>s\<close> scheduler steps (one for each call of \<^verbatim>\<open>step\<close>) the learning rate of the
  optimizer, which is the rate the scheduler reports, is
  \<open>learning_rate * min (s / 10) 1\<close>; it never exceeds \<open>learning_rate\<close> and equals it from
  the tenth step on.
\<close>

theorem lr_schedule:
  assumes "init X cfg model0 lf dev0 = Inr self0"
  shows "lr (optimizer (fst (run X ops (self0, model0)))) =
           learning_rate cfg * min (real (scheduler_steps ops) / 10) 1
       \<and> last_lr (scheduler (fst (run X ops (self0, model0)))) =
           learning_rate cfg * min (real (scheduler_steps ops) / 10) 1
       \<and> lr (optimizer (fst (run X ops (self0, model0)))) \<le> learning_rate cfg
       \<and> (10 \<le> scheduler_steps ops \<longrightarrow>
            lr (optimizer (fst (run X ops (self0, model0)))) = learning_rate cfg)"
proof -
  have "schedule_at (learning_rate cfg) (0 + scheduler_steps ops)
     (scheduler (fst (run X ops (self0, model0))), optimizer (fst (run X ops (self0, model0))))"
    using init_fields(11) [OF assms] by (intro run_schedule) simp
  then have eq: "lr (optimizer (fst (run X ops (self0, model0)))) =
        learning_rate cfg * min (real (scheduler_steps ops) / 10) 1"
    and eq2: "last_lr (scheduler (fst (run X ops (self0, model0)))) =
        lr (optimizer (fst (run X ops (self0, model0))))"
    by (simp_all add: schedule_at_def lr_lambda_def)
  have nn: "0 \<le> learning_rate cfg" by (rule init_fields(8) [OF assms])
  have "learning_rate cfg * min (real (scheduler_steps ops) / 10) 1 \<le> learning_rate cfg * 1"
    using nn by (intro mult_left_mono) simp_all
  then have le: "lr (optimizer (fst (run X ops (self0, model0)))) \<le> learning_rate cfg"
    using eq by simp
  have "10 \<le> scheduler_steps ops \<Longrightarrow> min (real (scheduler_steps ops) / 10) 1 = 1"
    by (simp add: min_def)
  then show ?thesis using eq eq2 le by simp
qed


lemma step_unfold:
  "step X self model data dev =
     (let D = (case dev of None \<Rightarrow> device self | Some s \<Rightarrow> if s = [] then device self else s);
          train_loss = loss_func self model (train_in data) (train_label data) D;
          test_loss = loss_func self model (test_in data) (test_label data) D;
          g = autograd X (\<lambda>ps. loss_func self (model\<lparr>parameters := ps\<rparr>)
                                  (train_in data) (train_label data) D) (parameters model);
          gsum = (case grad model of None \<Rightarrow> g | Some g0 \<Rightarrow> map2 (map2 (+)) g0 g);
          sp = adamw_rule X (optimizer self) (parameters model) gsum;
          e2 = last_epoch (scheduler self) + 1;
          rate = base_lr (scheduler self) * min (real_of_int e2 / 10) 1;
          self3 = self\<lparr>train_losses := train_losses self @ [train_loss],
                        test_losses := test_losses self @ [test_loss],
                        optimizer := (optimizer self)\<lparr>lr := rate, state := fst sp\<rparr>,
                        scheduler := (scheduler self)\<lparr>last_epoch := e2, last_lr := rate\<rparr>\<rparr>
      in if fixed_wnorm (config self) \<and> wnorm X (snd sp) = 0
         then (Some ZeroDivisionError, self3, model\<lparr>parameters := snd sp, grad := None\<rparr>)
         else (None, self3\<lparr>epoch := epoch self + 1\<rparr>,
               model\<lparr>parameters :=
                        (if fixed_wnorm (config self)
                         then map (map (\<lambda>x. x * (start_norm self / wnorm X (snd sp)))) (snd sp)
                         else snd sp),
                     grad := None\<rparr>))"
  by (simp add: step_def gradient_update_def measure_loss_def backward_def optimizer_step_def
      scheduler_step_def zero_grad_def scale_def train_graph_def device_or_def lr_lambda_def
      Let_def split_beta)






lemma wnorm_zero_vector:
  assumes "positively_homogeneous w"
  shows "w (map (map (\<lambda>x. x * 0)) ps) = 0"
proof -
  let ?z = "map (map (\<lambda>x. x * (0::real))) ps"
  have z: "map (map (\<lambda>x. 2 * x)) ?z = ?z" by (simp add: comp_def)
  have "w (map (map (\<lambda>x. 2 * x)) ?z) = 2 * w ?z"
    by (rule assms [unfolded positively_homogeneous_def, rule_format]) simp
  then have "w ?z = 2 * w ?z" by (simp only: z)
  then show ?thesis by simp
qed

lemma rescale_to_norm:
  assumes hom: "positively_homogeneous w"
    and nonneg: "\<forall>ps. 0 \<le> w ps"
    and s: "0 \<le> s"
    and nz: "w ps \<noteq> 0"
  shows "w (map (map (\<lambda>x. x * (s / w ps))) ps) = s"
proof (cases "s = 0")
  case True
  then show ?thesis using wnorm_zero_vector [OF hom, of ps] by simp
next
  case False
  have p: "0 < w ps" using nonneg nz by (simp add: less_le)
  then have c: "0 < s / w ps" using s False by simp
  have "w (map (map (\<lambda>x. s / w ps * x)) ps) = s / w ps * w ps"
    using hom c unfolding positively_homogeneous_def by blast
  then show ?thesis using nz by (simp add: mult.commute)
qed

text \<open>
  Claim C3, amended. On an Optimizer reached from its construction, with \<^verbatim>\<open>fixed_wnorm\<close>
  set and \<^verbatim>\<open>wnorm\<close> nonzero after the gradient update, a call of \<^verbatim>\<open>step\<close> returns and has
  multiplied every entry of every updated parameter by \<open>start_norm / wnorm\<close>; if moreover
  \<^verbatim>\<open>wnorm\<close> is positively homogeneous of degree 1 and never negative, then after the call
  \<^verbatim>\<open>wnorm\<close> equals the \<^verbatim>\<open>start_norm\<close> recorded at construction. With \<^verbatim>\<open>fixed_wnorm\<close> unset the
  call returns and the parameters are those that the gradient update left.
\<close>

theorem fixed_wnorm_rescales:
  assumes built: "init X cfg model0 lf dev0 = Inr self0"
    and reached: "run X ops (self0, model0) = (self, model)"
  shows "(let D = (case dev of None \<Rightarrow> device self | Some s \<Rightarrow> if s = [] then device self else s);
        train_loss = loss_func self model (train_in data) (train_label data) D;
        test_loss = loss_func self model (test_in data) (test_label data) D;
        g = autograd X (\<lambda>ps. loss_func self (model\<lparr>parameters := ps\<rparr>)
                                (train_in data) (train_label data) D) (parameters model);
        gsum = (case grad model of None \<Rightarrow> g | Some g0 \<Rightarrow> map2 (map2 (+)) g0 g);
        (s2, ps2) = adamw_rule X (optimizer self) (parameters model) gsum;
              (e, self', model') = step X self model data dev
          in start_norm self = wnorm X (parameters model0)
           \<and> start_norm self' = wnorm X (parameters model0)
           \<and> (fixed_wnorm cfg \<and> wnorm X ps2 \<noteq> 0 \<longrightarrow>
                 e = None
               \<and> parameters model' =
                   map (map (\<lambda>x. x * (wnorm X (parameters model0) / wnorm X ps2))) ps2)
           \<and> (fixed_wnorm cfg \<and> wnorm X ps2 \<noteq> 0
                \<and> (\<forall>c ps. 0 < c \<longrightarrow> wnorm X (map (map (\<lambda>x. c * x)) ps) = c * wnorm X ps)
                \<and> (\<forall>ps. 0 \<le> wnorm X ps) \<longrightarrow>
                 wnorm X (parameters model') = wnorm X (parameters model0))
           \<and> (\<not> fixed_wnorm cfg \<longrightarrow> e = None \<and> parameters model' = ps2))"
proof -
  have fr: "config self = cfg" "start_norm self = wnorm X (parameters model0)"
    using run_frame [of X ops "(self0, model0)"] reached init_fields(1,5) [OF built] by simp_all
  have w: "wnorm X (map (map (\<lambda>x. x * (wnorm X (parameters model0) / wnorm X ps))) ps) =
        wnorm X (parameters model0)"
    if "positively_homogeneous (wnorm X)" "\<forall>ps. 0 \<le> wnorm X ps" "wnorm X ps \<noteq> 0" for ps
    using that by (intro rescale_to_norm) auto
  show ?thesis
    using w by (simp add: step_unfold Let_def split_beta fr positively_homogeneous_def)
qed

lemma example_init:
  "init descent example_config example_model half_squares ''cuda'' = Inr example_optimizer"
  by (simp add: init_def new_adamw_def new_lambda_lr_def scheduler_step_def lr_lambda_def
      example_config_def default_config_def example_model_def example_optimizer_def
      descent_def abs_sum_def Let_def)

lemma abs_sum_scale: "0 < c \<Longrightarrow> abs_sum (scale c ps) = c * abs_sum ps"
proof (induction ps)
  case Nil
  then show ?case by (simp add: abs_sum_def scale_def)
next
  case (Cons p ps)
  have "(\<Sum>x\<leftarrow>p. \<bar>x * c\<bar>) = c * (\<Sum>x\<leftarrow>p. \<bar>x\<bar>)"
    using Cons.prems by (induction p) (simp_all add: abs_mult distrib_left mult.commute)
  with Cons show ?case by (simp add: abs_sum_def scale_def comp_def distrib_left)
qed

lemma abs_sum_nonneg: "0 \<le> abs_sum ps"
  unfolding abs_sum_def by (intro sum_list_nonneg) (auto intro!: sum_list_nonneg)

lemma wnorm_descent: "wnorm descent = abs_sum"
  by (simp add: descent_def)

lemma example_first_step:
  "step descent example_optimizer example_model example_data None =
     (None,
      example_optimizer
        \<lparr>optimizer := \<lparr>lr = 1 / 2, adam_weight_decay = 1, betas = (9 / 10, 98 / 100), state = ()\<rparr>,
         scheduler := \<lparr>base_lr = 5, last_epoch = 1, last_lr = 1 / 2\<rparr>,
         epoch := 1, train_losses := [5], test_losses := [5]\<rparr>,
      example_model)"
  by (simp add: step_def gradient_update_def measure_loss_def backward_def optimizer_step_def
      scheduler_step_def zero_grad_def lr_lambda_def device_or_def train_graph_def scale_def
      example_optimizer_def example_model_def example_data_def example_config_def
      default_config_def descent_def half_squares_def abs_sum_def Let_def)


lemma example_run_one:
  "run descent [Step example_data None] (example_optimizer, example_model) =
     (example_after_step, example_model)"
  by (simp add: run_def example_first_step example_after_step_def)

lemma abs_sum_homogeneous: "positively_homogeneous abs_sum"
  unfolding positively_homogeneous_def
proof (intro allI impI)
  fix c :: real and ps assume c: "0 < c"
  have "abs_sum (scale c ps) = c * abs_sum ps" by (rule abs_sum_scale [OF c])
  then show "abs_sum (map (map (\<lambda>x. c * x)) ps) = c * abs_sum ps"
    by (simp add: scale_def mult.commute)
qed

lemma example_second_step:
  "step descent example_after_step example_model example_data None =
     (None,
      example_after_step
        \<lparr>optimizer := \<lparr>lr = 1, adam_weight_decay = 1, betas = (9 / 10, 98 / 100), state = ()\<rparr>,
         scheduler := \<lparr>base_lr = 5, last_epoch = 2, last_lr = 1\<rparr>,
         epoch := 2, train_losses := [5, 5], test_losses := [5, 5]\<rparr>,
      example_model)"
  by (simp add: step_unfold Let_def split_beta example_after_step_def example_optimizer_def
      example_config_def default_config_def example_model_def example_data_def descent_def
      half_squares_def abs_sum_def)

text \<open>
  The second step of the example: the update halves the parameters \<open>[3, -1]\<close>, the
  rescaling doubles them, and the norm is 4 again.
\<close>

theorem fixed_wnorm_rescales_witness:
  "(let (e, self', model') = step descent example_after_step example_model example_data None
    in e = None \<and> start_norm self' = 4 \<and> parameters model' = [[3, - 1]]
       \<and> wnorm descent (parameters model') = 4)"
proof -
  have w: "wnorm descent (parameters example_model) = 4"
    by (simp add: wnorm_descent abs_sum_def example_model_def)
  have p: "parameters example_model = [[3, - 1]]" by (simp add: example_model_def)
  have s: "start_norm example_after_step = 4"
    by (simp add: example_after_step_def example_optimizer_def)
  have hyp: "fixed_wnorm example_config
      \<and> (\<forall>c ps. 0 < c \<longrightarrow>
            wnorm descent (map (map (\<lambda>x. c * x)) ps) = c * wnorm descent ps)
      \<and> (\<forall>ps. 0 \<le> wnorm descent ps)"
    using abs_sum_homogeneous
    by (simp add: example_config_def wnorm_descent abs_sum_nonneg positively_homogeneous_def)
  from fixed_wnorm_rescales [OF example_init example_run_one,
      where data = example_data and dev = None] hyp
  show ?thesis
    by (simp add: split_beta Let_def example_second_step w p s)
qed

text \<open>
  Claim C3 as it stands, with positive homogeneity alone, fails for a \<^verbatim>\<open>wnorm\<close> that
  takes negative values: in the second step of this example the update turns \<open>[3, 1]\<close>
  into \<open>[-6, -2]\<close>, of norm \<open>-16\<close>, the quotient is \<open>-1/4\<close>, and the rescaled parameters
  have norm 2 and not the 4 recorded at construction.
\<close>

theorem fixed_wnorm_needs_nonnegative:
  "init skewed skew_config skew_model half_squares ''cuda'' = Inr skew_optimizer
   \<and> run skewed [Step example_data None] (skew_optimizer, skew_model) = (skew_after_step, skew_model)
   \<and> fixed_wnorm skew_config
   \<and> positively_homogeneous (wnorm skewed)
   \<and> parameters (snd (gradient_update skewed skew_after_step skew_model example_data None)) = [[- 6, - 2]]
   \<and> wnorm skewed [[- 6, - 2]] = - 16
   \<and> parameters (snd (snd (step skewed skew_after_step skew_model example_data None))) = [[3 / 2, 1 / 2]]
   \<and> wnorm skewed [[3 / 2, 1 / 2]] = 2
   \<and> start_norm skew_after_step = 4"
proof -
  have hom: "positively_homogeneous (wnorm skewed)"
    unfolding positively_homogeneous_def
  proof (intro allI impI)
    fix c :: real and ps :: "tensor list" assume c: "0 < c"
    have s: "(\<Sum>p\<leftarrow>map (map (\<lambda>x. c * x)) ps. \<Sum>x\<leftarrow>p. x) = c * (\<Sum>p\<leftarrow>ps. \<Sum>x\<leftarrow>p. x)"
    proof (induction ps)
      case Nil
      then show ?case by simp
    next
      case (Cons p ps)
      have "(\<Sum>x\<leftarrow>map (\<lambda>x. c * x) p. x) = c * (\<Sum>x\<leftarrow>p. x)"
        by (induction p) (simp_all add: distrib_left)
      with Cons show ?case by (simp add: distrib_left)
    qed
    have "0 \<le> c * (\<Sum>p\<leftarrow>ps. \<Sum>x\<leftarrow>p. x) \<longleftrightarrow> 0 \<le> (\<Sum>p\<leftarrow>ps. \<Sum>x\<leftarrow>p. x)"
      using c by (simp add: zero_le_mult_iff)
    then show "wnorm skewed (map (map (\<lambda>x. c * x)) ps) = c * wnorm skewed ps"
      using s by (simp add: skewed_def skew_sum_def Let_def)
  qed
  have i: "init skewed skew_config skew_model half_squares ''cuda'' = Inr skew_optimizer"
    by (simp add: init_def new_adamw_def new_lambda_lr_def scheduler_step_def lr_lambda_def
        skew_config_def default_config_def skew_model_def skew_optimizer_def
        skewed_def descent_def skew_sum_def Let_def)
  have r: "run skewed [Step example_data None] (skew_optimizer, skew_model) =
        (skew_after_step, skew_model)"
    by (simp add: run_def step_unfold Let_def split_beta skew_after_step_def skew_optimizer_def
        skew_config_def default_config_def skew_model_def example_data_def skewed_def descent_def
        half_squares_def skew_sum_def)
  have g: "parameters (snd (gradient_update skewed skew_after_step skew_model example_data None)) =
        [[- 6, - 2]]"
    by (simp add: gradient_update_def measure_loss_def backward_def optimizer_step_def
        scheduler_step_def zero_grad_def lr_lambda_def device_or_def train_graph_def
        skew_after_step_def skew_optimizer_def skew_model_def example_data_def
        skewed_def descent_def half_squares_def Let_def)
  have s: "parameters (snd (snd (step skewed skew_after_step skew_model example_data None))) =
        [[3 / 2, 1 / 2]]"
    by (simp add: step_unfold Let_def split_beta skew_after_step_def skew_optimizer_def
        skew_config_def default_config_def skew_model_def example_data_def skewed_def descent_def
        half_squares_def skew_sum_def)
  have w: "wnorm skewed [[- 6, - 2]] = - 16" "wnorm skewed [[3 / 2, 1 / 2]] = 2"
    by (simp_all add: skewed_def skew_sum_def)
  have f: "fixed_wnorm skew_config" by (simp add: skew_config_def)
  have n: "start_norm skew_after_step = 4" by (simp add: skew_after_step_def skew_optimizer_def)
  from hom i r g s w f n show ?thesis by blast
qed


theorem lr_schedule_witness:
  "lr (optimizer (fst (run descent [Step example_data None, Step example_data None]
      (example_optimizer, example_model)))) = 1
   \<and> lr (optimizer (fst (run descent (replicate 12 (Step example_data None))
      (example_optimizer, example_model)))) = 5"
  using lr_schedule [OF example_init, of "[Step example_data None, Step example_data None]"]
    lr_schedule [OF example_init, of "replicate 12 (Step example_data None)"]
  by (simp add: scheduler_steps_def example_config_def)

theorem display_returns_witness:
  "display zero_format 0 (example_optimizer\<lparr>train_losses := [1], test_losses := [5, 1]\<rparr>) =
     Inr [(''lr'', ''0.0''), (''train'', ''0.0000''), (''test'', ''0.0000''), (''gpu'', ''0.000'')]"
proof -
  let ?s = "example_optimizer\<lparr>train_losses := [1], test_losses := [5, 1]\<rparr>"
  have a: "train_losses ?s \<noteq> []" "test_losses ?s \<noteq> []" by simp_all
  from display_returns [OF a, of zero_format 0] obtain d where
    d: "display zero_format 0 ?s = Inr d" by blast
  then show ?thesis
    by (simp add: display_def last_item_def np_log_def gpu_mem_def zero_format_def
        example_optimizer_def numeral_3_eq_3 numeral_eq_Suc)
qed





end
